theory Spec2Isabelle
  imports Complex_Main
begin

section \<open>JavaScript values and \<open>JSON.stringify\<close>\<close>

text \<open>
  The values the client handles are the values of JSON plus \<open>undefined\<close>. Numbers are
  rationals (no frame and no call of the client produces \<open>NaN\<close> or an infinity); strings
  are sequences of code units below 256; an object is the list of its own properties in
  enumeration order.
\<close>

datatype json =
    JUndefined
  | JNull
  | JBool bool
  | JNum rat
  | JStr string
  | JArr "json list"
  | JObj "(string \<times> json) list"

text \<open>
  What the host supplies and the repository does not define: \<open>JSON.parse\<close> (\<open>None\<close> when it
  throws a \<open>SyntaxError\<close>; an object it returns has distinct keys), the text of a number
  that is not an integer below \<open>2^53\<close> in absolute value (such an integer is written with
  all its decimal digits; above, JavaScript writes the shortest digits that read back as
  the same double), and whether \<open>new WebSocket(url)\<close> throws for a given URL.
\<close>

record platform =
  JSON_parse :: "string \<Rightarrow> json option"
  frac_to_string :: "rat \<Rightarrow> string"
  ctor_throws :: "string \<Rightarrow> bool"

text \<open>JavaScript's \<open>ToBoolean\<close>, as \<open>if (x)\<close> and \<open>x || y\<close> use it.\<close>

fun truthy :: "json \<Rightarrow> bool" where
  "truthy JUndefined = False"
| "truthy JNull = False"
| "truthy (JBool b) = b"
| "truthy (JNum r) = (r \<noteq> 0)"
| "truthy (JStr s) = (s \<noteq> [])"
| "truthy (JArr xs) = True"
| "truthy (JObj kvs) = True"

text \<open>
  Property read \<open>v.k\<close> for the keys the client reads (\<open>type\<close>, \<open>data\<close>): \<open>None\<close> is the
  \<open>TypeError\<close> of reading a property of \<open>null\<close> or \<open>undefined\<close>; a primitive or an array
  has no such property.
\<close>

fun get_prop :: "json \<Rightarrow> string \<Rightarrow> json option" where
  "get_prop JUndefined k = None"
| "get_prop JNull k = None"
| "get_prop (JObj kvs) k = (case map_of kvs k of None \<Rightarrow> Some JUndefined | Some v \<Rightarrow> Some v)"
| "get_prop v k = Some JUndefined"

definition digit_char :: "nat \<Rightarrow> char" where
  "digit_char d = char_of (of_char (CHR ''0'') + d)"

fun digits :: "nat \<Rightarrow> string" where
  "digits n = (if n < 10 then [digit_char n] else digits (n div 10) @ [digit_char (n mod 10)])"

declare digits.simps [simp del]

definition Number_toString :: "platform \<Rightarrow> rat \<Rightarrow> string" where
  "Number_toString pf r =
     (if of_int \<lfloor>r\<rfloor> = r \<and> \<bar>r\<bar> < 2 ^ 53
      then (if r < 0 then CHR ''-'' # digits (nat (- \<lfloor>r\<rfloor>)) else digits (nat \<lfloor>r\<rfloor>))
      else frac_to_string pf r)"

definition hex_char :: "nat \<Rightarrow> char" where
  "hex_char d = (if d < 10 then digit_char d else char_of (of_char (CHR ''a'') + (d - 10)))"

definition escape_char :: "char \<Rightarrow> string" where
  "escape_char c =
     (if c = CHR 0x22 then [CHR 0x5C, CHR 0x22]
      else if c = CHR 0x5C then [CHR 0x5C, CHR 0x5C]
      else if c = CHR 0x08 then [CHR 0x5C, CHR ''b'']
      else if c = CHR 0x0C then [CHR 0x5C, CHR ''f'']
      else if c = CHR 0x0A then [CHR 0x5C, CHR ''n'']
      else if c = CHR 0x0D then [CHR 0x5C, CHR ''r'']
      else if c = CHR 0x09 then [CHR 0x5C, CHR ''t'']
      else if (of_char c :: nat) < 32
        then [CHR 0x5C, CHR ''u'', CHR ''0'', CHR ''0'',
              hex_char (of_char c div 16), hex_char (of_char c mod 16)]
      else [c])"

definition quote :: "string \<Rightarrow> string" where
  "quote s = CHR 0x22 # concat (map escape_char s) @ [CHR 0x22]"

fun join :: "string \<Rightarrow> string list \<Rightarrow> string" where
  "join sep [] = []"
| "join sep [x] = x"
| "join sep (x # y # ys) = x @ sep @ join sep (y # ys)"

text \<open>
  \<open>JSON.stringify\<close>: \<open>None\<close> is the result \<open>undefined\<close>. A property whose value is
  \<open>undefined\<close> is left out of an object and written \<open>null\<close> in an array.
\<close>

fun JSON_stringify :: "platform \<Rightarrow> json \<Rightarrow> string option" where
  "JSON_stringify pf JUndefined = None"
| "JSON_stringify pf JNull = Some ''null''"
| "JSON_stringify pf (JBool b) = Some (if b then ''true'' else ''false'')"
| "JSON_stringify pf (JNum r) = Some (Number_toString pf r)"
| "JSON_stringify pf (JStr s) = Some (quote s)"
| "JSON_stringify pf (JArr xs) =
     Some (''['' @ join '','' (map (\<lambda>x. case JSON_stringify pf x of None \<Rightarrow> ''null'' | Some t \<Rightarrow> t) xs)
           @ '']'')"
| "JSON_stringify pf (JObj kvs) =
     Some (''{'' @ join '',''
             (concat (map (\<lambda>kv. case JSON_stringify pf (snd kv) of
                                  None \<Rightarrow> []
                                | Some t \<Rightarrow> [quote (fst kv) @ '':'' @ t]) kvs))
           @ ''}'')"


section \<open>The host: sockets and timers\<close>

text \<open>
  The browser's \<open>WebSocket\<close> objects live in a store indexed by the order of their
  construction; the client's field \<open>ws\<close> is a reference into it. A socket records the
  frames handed to the network by \<open>send\<close> and the arguments of every effective \<open>close\<close>.
\<close>

datatype readyState = CONNECTING | OPEN | CLOSING | CLOSED

record socket =
  readyState :: readyState
  sent :: "string list"
  closeCalls :: "(int \<times> string) list"

definition new_socket :: socket where
  "new_socket = \<lparr>readyState = CONNECTING, sent = [], closeCalls = []\<rparr>"

datatype error = TypeError | InvalidStateError

text \<open>
  A listener is known by its identity; all the client can observe of its body is whether
  the call returns or throws. Listeners do not call back into the client.
\<close>

datatype callback = Callback (cb_id: nat) (cb_throws: bool)

section \<open>The client\<close>

record config =
  url :: string
  reconnectDelay :: int
  maxReconnectAttempts :: int
  heartbeatInterval :: int
  debug :: bool

text \<open>
  The fields of \<open>WebSocketClient\<close>, then the host's state (socket store, live timers), then
  what an observer sees: the \<open>_emit\<close> calls, the listener invocations, the console, and
  the exceptions that left a handler or a public method.
\<close>

record state =
  config :: config
  ws :: "nat option"
  connected :: bool
  reconnectAttempts :: int
  reconnectTimer :: "nat option"
  heartbeatTimer :: "nat option"
  subscriptions :: "(json \<times> json) list"
  eventListeners :: "string \<rightharpoonup> callback list"
  messageQueue :: "string list"
  sockets :: "nat \<Rightarrow> socket"
  nsock :: nat
  timeouts :: "nat set"
  intervals :: "nat set"
  nextTimer :: nat
  emitted :: "(json \<times> json) list"
  calls :: "(nat \<times> json) list"
  console :: "string list"
  uncaught :: "error list"

text \<open>
  The constructor. An option given in the argument wins over the default even when it is
  falsy, because the argument is spread last; \<open>None\<close> is an option that is not given.
  \<open>env_url\<close> and \<open>env_port\<close> are \<open>process.env.REACT_APP_WS_URL\<close> and
  \<open>process.env.WEBSOCKET_PORT\<close>.
\<close>

record config_arg =
  arg_url :: "string option"
  arg_reconnectDelay :: "int option"
  arg_maxReconnectAttempts :: "int option"
  arg_heartbeatInterval :: "int option"
  arg_debug :: "bool option"

definition default_url :: "string option \<Rightarrow> string option \<Rightarrow> string" where
  "default_url env_url env_port =
     (case env_url of
        Some u \<Rightarrow> if u \<noteq> [] then u
                  else ''ws://localhost:'' @ (case env_port of Some p \<Rightarrow> if p \<noteq> [] then p else ''8080''
                                                | None \<Rightarrow> ''8080'')
      | None \<Rightarrow> ''ws://localhost:'' @ (case env_port of Some p \<Rightarrow> if p \<noteq> [] then p else ''8080''
                                                | None \<Rightarrow> ''8080''))"

definition make_config :: "string option \<Rightarrow> string option \<Rightarrow> config_arg \<Rightarrow> config" where
  "make_config env_url env_port a =
     \<lparr>url = (case arg_url a of Some u \<Rightarrow> u | None \<Rightarrow> default_url env_url env_port),
      reconnectDelay = (case arg_reconnectDelay a of Some d \<Rightarrow> d | None \<Rightarrow> 5000),
      maxReconnectAttempts = (case arg_maxReconnectAttempts a of Some m \<Rightarrow> m | None \<Rightarrow> 5),
      heartbeatInterval = (case arg_heartbeatInterval a of Some h \<Rightarrow> h | None \<Rightarrow> 30000),
      debug = (case arg_debug a of Some d \<Rightarrow> d | None \<Rightarrow> False)\<rparr>"

definition constructor :: "config \<Rightarrow> state" where
  "constructor c =
     \<lparr>config = c, ws = None, connected = False, reconnectAttempts = 0,
      reconnectTimer = None, heartbeatTimer = None, subscriptions = [],
      eventListeners = Map.empty, messageQueue = [],
      sockets = (\<lambda>i. new_socket), nsock = 0, timeouts = {}, intervals = {}, nextTimer = 1,
      emitted = [], calls = [], console = [], uncaught = []\<rparr>"

subsection \<open>Host operations\<close>

text \<open>\<open>setTimeout\<close> and \<open>setInterval\<close> return a fresh positive id; the \<open>clear\<close> functions
  forget it.\<close>

definition setTimeout :: "state \<Rightarrow> nat \<times> state" where
  "setTimeout s = (nextTimer s, s\<lparr>timeouts := insert (nextTimer s) (timeouts s),
                                   nextTimer := Suc (nextTimer s)\<rparr>)"

definition clearTimeout :: "nat \<Rightarrow> state \<Rightarrow> state" where
  "clearTimeout t s = s\<lparr>timeouts := timeouts s - {t}\<rparr>"

definition setInterval :: "state \<Rightarrow> nat \<times> state" where
  "setInterval s = (nextTimer s, s\<lparr>intervals := insert (nextTimer s) (intervals s),
                                    nextTimer := Suc (nextTimer s)\<rparr>)"

definition clearInterval :: "nat \<Rightarrow> state \<Rightarrow> state" where
  "clearInterval t s = s\<lparr>intervals := intervals s - {t}\<rparr>"

text \<open>\<open>new WebSocket(url)\<close>, once the host has accepted the URL.\<close>

definition new_WebSocket :: "state \<Rightarrow> nat \<times> state" where
  "new_WebSocket s = (nsock s, s\<lparr>sockets := (sockets s)(nsock s := new_socket),
                                   nsock := Suc (nsock s)\<rparr>)"

text \<open>
  \<open>socket.send(frame)\<close>: throws on a socket still connecting, transmits on an open one,
  and silently discards on a closing or closed one.
\<close>

definition socket_send :: "nat \<Rightarrow> string \<Rightarrow> state \<Rightarrow> error option \<times> state" where
  "socket_send i frame s =
     (case readyState (sockets s i) of
        CONNECTING \<Rightarrow> (Some InvalidStateError, s)
      | OPEN \<Rightarrow> (None, s\<lparr>sockets := (sockets s)(i := (sockets s i)\<lparr>sent := sent (sockets s i) @ [frame]\<rparr>)\<rparr>)
      | CLOSING \<Rightarrow> (None, s)
      | CLOSED \<Rightarrow> (None, s))"

text \<open>\<open>socket.close(code, reason)\<close>: no effect on a socket already closing or closed.\<close>

definition socket_close :: "nat \<Rightarrow> int \<Rightarrow> string \<Rightarrow> state \<Rightarrow> state" where
  "socket_close i code reason s =
     (case readyState (sockets s i) of
        CLOSING \<Rightarrow> s
      | CLOSED \<Rightarrow> s
      | _ \<Rightarrow> s\<lparr>sockets := (sockets s)(i := (sockets s i)\<lparr>readyState := CLOSING,
                    closeCalls := closeCalls (sockets s i) @ [(code, reason)]\<rparr>)\<rparr>)"

text \<open>\<open>this.ws.send(frame)\<close>: reading \<open>send\<close> of \<open>null\<close> is a \<open>TypeError\<close>.\<close>

definition this_ws_send :: "string \<Rightarrow> state \<Rightarrow> error option \<times> state" where
  "this_ws_send frame s =
     (case ws s of None \<Rightarrow> (Some TypeError, s) | Some i \<Rightarrow> socket_send i frame s)"

text \<open>\<open>this.ws && this.ws.readyState === WebSocket.OPEN\<close>\<close>

definition ws_is_open :: "state \<Rightarrow> bool" where
  "ws_is_open s = (case ws s of None \<Rightarrow> False | Some i \<Rightarrow> readyState (sockets s i) = OPEN)"

subsection \<open>Methods\<close>

text \<open>
  Each method keeps its name; a private method \<open>_name\<close> is written \<open>name\<close>, except
  \<open>_log\<close> (\<open>log_debug\<close>) and \<open>_send\<close> (\<open>send_private\<close>), whose plain names are taken. A
  method that can end in an exception returns the exception, if any, beside the state it
  leaves behind.
\<close>

text \<open>\<open>_log\<close> prints only in debug mode; the console keeps the leading text of each line.\<close>

definition log_debug :: "string \<Rightarrow> state \<Rightarrow> state" where
  "log_debug line s = (if debug (config s) then s\<lparr>console := console s @ [line]\<rparr> else s)"

text \<open>One iteration of the \<open>forEach\<close> in \<open>_emit\<close>: the call, and the \<open>catch\<close> around it.\<close>

definition invoke :: "json \<Rightarrow> callback \<Rightarrow> state \<Rightarrow> state" where
  "invoke data cb s =
     (let s1 = s\<lparr>calls := calls s @ [(cb_id cb, data)]\<rparr>
      in if cb_throws cb then log_debug ''Error in event listener:'' s1 else s1)"

text \<open>
  \<open>_emit(event, data = null)\<close>. Listeners are registered under string names, so an event
  that is not a string finds none.
\<close>

definition emit :: "json \<Rightarrow> json \<Rightarrow> state \<Rightarrow> state" where
  "emit event data0 s =
     (let data = (if data0 = JUndefined then JNull else data0);
          s1 = s\<lparr>emitted := emitted s @ [(event, data)]\<rparr>
      in case event of
           JStr name \<Rightarrow> (case eventListeners s1 name of
                           None \<Rightarrow> s1
                         | Some cbs \<Rightarrow> fold (invoke data) cbs s1)
         | _ \<Rightarrow> s1)"

definition scheduleReconnect :: "state \<Rightarrow> state" where
  "scheduleReconnect s =
     (if reconnectTimer s \<noteq> None then s
      else if reconnectAttempts s \<ge> maxReconnectAttempts (config s)
        then emit (JStr ''reconnect_failed'') JUndefined (log_debug ''Max reconnection attempts reached'' s)
      else
        let s1 = s\<lparr>reconnectAttempts := reconnectAttempts s + 1\<rparr>;
            delay = reconnectDelay (config s1);
            s2 = log_debug ''Reconnecting'' s1;
            s3 = emit (JStr ''reconnecting'')
                   (JObj [(''attempt'', JNum (of_int (reconnectAttempts s2))),
                          (''delay'', JNum (of_int delay))]) s2;
            (t, s4) = setTimeout s3
        in s4\<lparr>reconnectTimer := Some t\<rparr>)"

text \<open>The exception object of a failed construction, as the \<open>error\<close> listeners get it.\<close>

definition construction_error :: json where
  "construction_error = JObj [(''name'', JStr ''SyntaxError'')]"

definition connect :: "platform \<Rightarrow> state \<Rightarrow> state" where
  "connect pf s =
     (if (case ws s of
            None \<Rightarrow> False
          | Some i \<Rightarrow> readyState (sockets s i) = CONNECTING \<or> readyState (sockets s i) = OPEN)
      then log_debug ''Already connected or connecting'' s
      else
        let s1 = log_debug ''Connecting to WebSocket server:'' s
        in if ctor_throws pf (url (config s1))
           then scheduleReconnect (emit (JStr ''error'') construction_error (log_debug ''Connection error:'' s1))
           else (let (i, s2) = new_WebSocket s1 in s2\<lparr>ws := Some i\<rparr>))"

definition disconnect :: "state \<Rightarrow> state" where
  "disconnect s =
     (let s1 = log_debug ''Disconnecting...'' s;
          s2 = s1\<lparr>reconnectAttempts := maxReconnectAttempts (config s1)\<rparr>;
          s3 = (case reconnectTimer s2 of
                  Some t \<Rightarrow> (clearTimeout t s2)\<lparr>reconnectTimer := None\<rparr>
                | None \<Rightarrow> s2);
          s4 = (case heartbeatTimer s3 of
                  Some t \<Rightarrow> (clearInterval t s3)\<lparr>heartbeatTimer := None\<rparr>
                | None \<Rightarrow> s3);
          s5 = (case ws s4 of
                  Some i \<Rightarrow> (socket_close i 1000 ''Client disconnect'' s4)\<lparr>ws := None\<rparr>
                | None \<Rightarrow> s4);
          s6 = s5\<lparr>connected := False\<rparr>
      in emit (JStr ''disconnected'') JUndefined s6)"

text \<open>
  \<open>_send\<close>. The frame is \<open>JSON.stringify(message)\<close>; the result \<open>undefined\<close> would be
  written as the text \<open>undefined\<close>, but every caller passes an object.
\<close>

definition serialize :: "platform \<Rightarrow> json \<Rightarrow> string" where
  "serialize pf message = (case JSON_stringify pf message of Some t \<Rightarrow> t | None \<Rightarrow> ''undefined'')"

definition send_private :: "platform \<Rightarrow> json \<Rightarrow> state \<Rightarrow> error option \<times> state" where
  "send_private pf message s =
     (let jsonMessage = serialize pf message
      in if ws_is_open s then this_ws_send jsonMessage s
         else (None, log_debug ''Message queued (not connected)''
                       (s\<lparr>messageQueue := messageQueue s @ [jsonMessage]\<rparr>)))"

text \<open>A default parameter value applies when the argument is \<open>undefined\<close>.\<close>

definition default_arg :: "json \<Rightarrow> json \<Rightarrow> json" where
  "default_arg d v = (if v = JUndefined then d else v)"

definition subscribe_message :: "json \<Rightarrow> json \<Rightarrow> json \<Rightarrow> json" where
  "subscribe_message topic flt interval =
     JObj [(''type'', JStr ''subscribe''), (''topic'', topic),
           (''filter'', default_arg JNull flt),
           (''interval'', default_arg (JNum 30000) interval)]"

definition subscribe :: "platform \<Rightarrow> json \<Rightarrow> json \<Rightarrow> json \<Rightarrow> state \<Rightarrow> error option \<times> state" where
  "subscribe pf topic flt interval s =
     (case send_private pf (subscribe_message topic flt interval) s of
        (Some e, s1) \<Rightarrow> (Some e, s1)
      | (None, s1) \<Rightarrow> (None, log_debug ''Subscribed to:'' s1))"

definition unsubscribe_message :: "json \<Rightarrow> json \<Rightarrow> json" where
  "unsubscribe_message topic flt =
     JObj [(''type'', JStr ''unsubscribe''), (''topic'', topic),
           (''filter'', default_arg JNull flt)]"

definition unsubscribe :: "platform \<Rightarrow> json \<Rightarrow> json \<Rightarrow> state \<Rightarrow> error option \<times> state" where
  "unsubscribe pf topic flt s =
     (case send_private pf (unsubscribe_message topic flt) s of
        (Some e, s1) \<Rightarrow> (Some e, s1)
      | (None, s1) \<Rightarrow> (None, log_debug ''Unsubscribed from:'' s1))"

definition data_message :: "json \<Rightarrow> json" where
  "data_message data = JObj [(''type'', JStr ''data''), (''data'', data)]"

definition send :: "platform \<Rightarrow> json \<Rightarrow> state \<Rightarrow> error option \<times> state" where
  "send pf data s = send_private pf (data_message data) s"

text \<open>A \<open>Set\<close> of callbacks in insertion order.\<close>

definition set_add :: "callback \<Rightarrow> callback list \<Rightarrow> callback list" where
  "set_add cb cbs = (if cb \<in> set cbs then cbs else cbs @ [cb])"

definition on :: "string \<Rightarrow> callback \<Rightarrow> state \<Rightarrow> state" where
  "on event cb s =
     (let s1 = (if eventListeners s event = None
                then s\<lparr>eventListeners := (eventListeners s)(event \<mapsto> [])\<rparr> else s);
          cbs = (case eventListeners s1 event of Some c \<Rightarrow> c | None \<Rightarrow> [])
      in log_debug ''Registered listener for:''
           (s1\<lparr>eventListeners := (eventListeners s1)(event \<mapsto> set_add cb cbs)\<rparr>))"

definition off :: "string \<Rightarrow> callback \<Rightarrow> state \<Rightarrow> state" where
  "off event cb s =
     (case eventListeners s event of
        None \<Rightarrow> s
      | Some cbs \<Rightarrow>
          if removeAll cb cbs = []
          then s\<lparr>eventListeners := (eventListeners s)(event := None)\<rparr>
          else s\<lparr>eventListeners := (eventListeners s)(event \<mapsto> removeAll cb cbs)\<rparr>)"



text \<open>The \<open>while\<close> loop of \<open>_handleOpen\<close>: shift the head of the queue, write it, repeat.\<close>

function drain :: "state \<Rightarrow> error option \<times> state" where
  "drain s =
     (case messageQueue s of
        [] \<Rightarrow> (None, s)
      | message # rest \<Rightarrow>
          (case this_ws_send message (s\<lparr>messageQueue := rest\<rparr>) of
             (Some e, s1) \<Rightarrow> (Some e, s1)
           | (None, s1) \<Rightarrow> drain s1))"
  by pat_completeness auto
termination
  by (relation "measure (\<lambda>s. length (messageQueue s))")
     (auto simp: this_ws_send_def socket_send_def split: option.splits readyState.splits)

declare drain.simps [simp del]

definition startHeartbeat :: "state \<Rightarrow> state" where
  "startHeartbeat s =
     (let s1 = (case heartbeatTimer s of Some t \<Rightarrow> clearInterval t s | None \<Rightarrow> s);
          (t, s2) = setInterval s1
      in s2\<lparr>heartbeatTimer := Some t\<rparr>)"

text \<open>The body of the interval callback set by \<open>_startHeartbeat\<close>.\<close>

definition heartbeat_tick :: "platform \<Rightarrow> state \<Rightarrow> error option \<times> state" where
  "heartbeat_tick pf s =
     (if ws_is_open s then send_private pf (JObj [(''type'', JStr ''ping'')]) s else (None, s))"

text \<open>The body of the timeout callback set by \<open>_scheduleReconnect\<close>.\<close>

definition reconnect_tick :: "platform \<Rightarrow> state \<Rightarrow> state" where
  "reconnect_tick pf s = connect pf (s\<lparr>reconnectTimer := None\<rparr>)"

definition handleOpen :: "state \<Rightarrow> error option \<times> state" where
  "handleOpen s =
     (let s1 = log_debug ''Connected to WebSocket server'' s;
          s2 = s1\<lparr>connected := True, reconnectAttempts := 0\<rparr>
      in case drain s2 of
           (Some e, s3) \<Rightarrow> (Some e, s3)
         | (None, s3) \<Rightarrow> (None, emit (JStr ''connected'') JUndefined (startHeartbeat s3)))"

definition handleClose :: "int \<Rightarrow> string \<Rightarrow> state \<Rightarrow> state" where
  "handleClose code reason s =
     (let s1 = log_debug ''WebSocket closed:'' s;
          s2 = s1\<lparr>connected := False, ws := None\<rparr>;
          s3 = (case heartbeatTimer s2 of
                  Some t \<Rightarrow> (clearInterval t s2)\<lparr>heartbeatTimer := None\<rparr>
                | None \<Rightarrow> s2);
          s4 = emit (JStr ''disconnected'')
                 (JObj [(''code'', JNum (of_int code)), (''reason'', JStr reason)]) s3
      in if code \<noteq> 1000 \<and> reconnectAttempts s4 < maxReconnectAttempts (config s4)
         then scheduleReconnect s4 else s4)"

definition handleError :: "json \<Rightarrow> state \<Rightarrow> state" where
  "handleError err s = emit (JStr ''error'') err (log_debug ''WebSocket error:'' s)"

text \<open>
  \<open>_handleMessage\<close>. Both \<open>JSON.parse\<close> throwing and the \<open>TypeError\<close> of reading
  \<open>message.type\<close> when the frame is the text \<open>null\<close> end in the \<open>catch\<close>.
\<close>

definition handleMessage :: "platform \<Rightarrow> string \<Rightarrow> state \<Rightarrow> state" where
  "handleMessage pf data s =
     (case JSON_parse pf data of
        None \<Rightarrow> log_debug ''Failed to parse message:'' s
      | Some message \<Rightarrow>
          (case get_prop message ''type'' of
             None \<Rightarrow> log_debug ''Failed to parse message:'' s
           | Some ty \<Rightarrow>
               let s1 = log_debug ''Received message:'' s;
                   s2 = (if truthy ty
                         then emit ty (case get_prop message ''data'' of
                                         Some d \<Rightarrow> if truthy d then d else message
                                       | None \<Rightarrow> message) s1
                         else s1)
               in emit (JStr ''message'') message s2))"

definition cleanup :: "state \<Rightarrow> state" where
  "cleanup s =
     (disconnect s)\<lparr>eventListeners := Map.empty, subscriptions := [], messageQueue := []\<rparr>"

section \<open>Runs\<close>

text \<open>
  What can happen to a client: a call of a public method, an event of one of the sockets
  it constructed (each carries the four handlers \<open>connect\<close> attached, whether or not it is
  still the current one), or a timer firing. \<open>SockClosing\<close> is the start of a closing
  handshake by the server, which changes the ready state and runs no handler.
\<close>

datatype input =
    Connect
  | Disconnect
  | Subscribe json json json
  | Unsubscribe json json
  | Send json
  | On string callback
  | Off string callback
  | Cleanup
  | SockOpen nat
  | SockClosing nat
  | SockClose nat int string
  | SockError nat json
  | SockMessage nat string
  | TimeoutFire nat
  | IntervalFire nat

definition set_readyState :: "nat \<Rightarrow> readyState \<Rightarrow> state \<Rightarrow> state" where
  "set_readyState i r s = s\<lparr>sockets := (sockets s)(i := (sockets s i)\<lparr>readyState := r\<rparr>)\<rparr>"

text \<open>An exception that leaves a method or a handler is reported; the state stays as it is.\<close>

definition report :: "error option \<times> state \<Rightarrow> state" where
  "report r = (case r of (None, s) \<Rightarrow> s | (Some e, s) \<Rightarrow> s\<lparr>uncaught := uncaught s @ [e]\<rparr>)"

text \<open>One step; \<open>None\<close> when the host cannot produce the event in this state.\<close>

fun step :: "platform \<Rightarrow> input \<Rightarrow> state \<Rightarrow> state option" where
  "step pf Connect s = Some (connect pf s)"
| "step pf Disconnect s = Some (disconnect s)"
| "step pf (Subscribe topic flt interval) s = Some (report (subscribe pf topic flt interval s))"
| "step pf (Unsubscribe topic flt) s = Some (report (unsubscribe pf topic flt s))"
| "step pf (Send data) s = Some (report (send pf data s))"
| "step pf (On event cb) s = Some (on event cb s)"
| "step pf (Off event cb) s = Some (off event cb s)"
| "step pf Cleanup s = Some (cleanup s)"
| "step pf (SockOpen i) s =
     (if i < nsock s \<and> readyState (sockets s i) = CONNECTING
      then Some (report (handleOpen (set_readyState i OPEN s))) else None)"
| "step pf (SockClosing i) s =
     (if i < nsock s \<and> readyState (sockets s i) = OPEN
      then Some (set_readyState i CLOSING s) else None)"
| "step pf (SockClose i code reason) s =
     (if i < nsock s \<and> readyState (sockets s i) \<noteq> CLOSED
      then Some (handleClose code reason (set_readyState i CLOSED s)) else None)"
| "step pf (SockError i err) s =
     (if i < nsock s \<and> readyState (sockets s i) \<noteq> CLOSED
      then Some (handleError err s) else None)"
| "step pf (SockMessage i data) s =
     (if i < nsock s \<and> (readyState (sockets s i) = OPEN \<or> readyState (sockets s i) = CLOSING)
      then Some (handleMessage pf data s) else None)"
| "step pf (TimeoutFire t) s =
     (if t \<in> timeouts s
      then Some (reconnect_tick pf (s\<lparr>timeouts := timeouts s - {t}\<rparr>)) else None)"
| "step pf (IntervalFire t) s =
     (if t \<in> intervals s then Some (report (heartbeat_tick pf s)) else None)"

fun run :: "platform \<Rightarrow> input list \<Rightarrow> state \<Rightarrow> state option" where
  "run pf [] s = Some s"
| "run pf (i # is) s = (case step pf i s of None \<Rightarrow> None | Some s1 \<Rightarrow> run pf is s1)"

section \<open>Observations and scenarios\<close>

text \<open>The payloads of the \<open>_emit\<close> calls for one event name, in order.\<close>

definition events_named :: "string \<Rightarrow> state \<Rightarrow> json list" where
  "events_named name s = map snd (filter (\<lambda>p. fst p = JStr name) (emitted s))"

text \<open>The live timers are exactly the ones the client holds a handle to.\<close>

definition timers_ok :: "state \<Rightarrow> bool" where
  "timers_ok s \<longleftrightarrow> timeouts s = set_option (reconnectTimer s)
                 \<and> intervals s = set_option (heartbeatTimer s)"

text \<open>
  One failed connection: the current socket closes with the given code, then the
  reconnect timer fires if one is pending. \<open>closures\<close> repeats this with no open in between.
\<close>

definition closure :: "platform \<Rightarrow> int \<Rightarrow> state \<Rightarrow> state option" where
  "closure pf code s =
     (case ws s of
        None \<Rightarrow> None
      | Some i \<Rightarrow>
          (case step pf (SockClose i code []) s of
             None \<Rightarrow> None
           | Some s1 \<Rightarrow>
               (case reconnectTimer s1 of
                  None \<Rightarrow> Some s1
                | Some t \<Rightarrow> step pf (TimeoutFire t) s1)))"

fun closures :: "platform \<Rightarrow> int \<Rightarrow> nat \<Rightarrow> state \<Rightarrow> state option" where
  "closures pf code 0 s = Some s"
| "closures pf code (Suc k) s =
     (case closure pf code s of None \<Rightarrow> None | Some s1 \<Rightarrow> closures pf code k s1)"

text \<open>The payload of the \<open>reconnecting\<close> event of attempt \<open>j\<close>.\<close>

definition reconnecting_payload :: "config \<Rightarrow> int \<Rightarrow> json" where
  "reconnecting_payload c j =
     JObj [(''attempt'', JNum (of_int j)), (''delay'', JNum (of_int (reconnectDelay c)))]"


fun is_call :: "input \<Rightarrow> bool" where
  "is_call (Subscribe topic flt interval) = True"
| "is_call (Unsubscribe topic flt) = True"
| "is_call (Send data) = True"
| "is_call _ = False"

text \<open>The frame a queued call puts on the wire.\<close>

fun frame_of :: "platform \<Rightarrow> input \<Rightarrow> string" where
  "frame_of pf (Subscribe topic flt interval) = serialize pf (subscribe_message topic flt interval)"
| "frame_of pf (Unsubscribe topic flt) = serialize pf (unsubscribe_message topic flt)"
| "frame_of pf (Send data) = serialize pf (data_message data)"
| "frame_of pf _ = []"

text \<open>A host and a configuration for the scenarios of the specification.\<close>

definition sensor_frame :: string where
  \<open>sensor_frame = ''{"type":"sensor_data_update","data":{"temp":28.5}}''\<close>

definition sensor_payload :: json where
  "sensor_payload = JObj [(''type'', JStr ''sensor_data_update''),
                          (''data'', JObj [(''temp'', JNum (285 / 10))])]"

definition test_platform :: platform where
  "test_platform = \<lparr>JSON_parse = (\<lambda>t. if t = sensor_frame then Some sensor_payload else None),
                     frac_to_string = (\<lambda>r. []),
                     ctor_throws = (\<lambda>u. False)\<rparr>"

definition test_config :: config where
  "test_config = \<lparr>url = ''ws://localhost:8080'', reconnectDelay = 100, maxReconnectAttempts = 2,
                   heartbeatInterval = 1000, debug = False\<rparr>"


section \<open>What each method leaves alone\<close>

lemma log_debug_fields [simp]:
  "config (log_debug l s) = config s" "ws (log_debug l s) = ws s"
  "connected (log_debug l s) = connected s" "reconnectAttempts (log_debug l s) = reconnectAttempts s"
  "reconnectTimer (log_debug l s) = reconnectTimer s" "heartbeatTimer (log_debug l s) = heartbeatTimer s"
  "subscriptions (log_debug l s) = subscriptions s" "eventListeners (log_debug l s) = eventListeners s"
  "messageQueue (log_debug l s) = messageQueue s" "sockets (log_debug l s) = sockets s"
  "nsock (log_debug l s) = nsock s" "timeouts (log_debug l s) = timeouts s"
  "intervals (log_debug l s) = intervals s" "nextTimer (log_debug l s) = nextTimer s"
  "emitted (log_debug l s) = emitted s" "calls (log_debug l s) = calls s"
  "uncaught (log_debug l s) = uncaught s"
  by (simp_all add: log_debug_def)

lemma invoke_fields [simp]:
  "config (invoke d cb s) = config s" "ws (invoke d cb s) = ws s"
  "connected (invoke d cb s) = connected s" "reconnectAttempts (invoke d cb s) = reconnectAttempts s"
  "reconnectTimer (invoke d cb s) = reconnectTimer s" "heartbeatTimer (invoke d cb s) = heartbeatTimer s"
  "subscriptions (invoke d cb s) = subscriptions s" "eventListeners (invoke d cb s) = eventListeners s"
  "messageQueue (invoke d cb s) = messageQueue s" "sockets (invoke d cb s) = sockets s"
  "nsock (invoke d cb s) = nsock s" "timeouts (invoke d cb s) = timeouts s"
  "intervals (invoke d cb s) = intervals s" "nextTimer (invoke d cb s) = nextTimer s"
  "emitted (invoke d cb s) = emitted s" "uncaught (invoke d cb s) = uncaught s"
  "calls (invoke d cb s) = calls s @ [(cb_id cb, d)]"
  by (simp_all add: invoke_def Let_def)

lemma fold_invoke_fields [simp]:
  "config (fold (invoke d) cbs s) = config s" "ws (fold (invoke d) cbs s) = ws s"
  "connected (fold (invoke d) cbs s) = connected s"
  "reconnectAttempts (fold (invoke d) cbs s) = reconnectAttempts s"
  "reconnectTimer (fold (invoke d) cbs s) = reconnectTimer s"
  "heartbeatTimer (fold (invoke d) cbs s) = heartbeatTimer s"
  "subscriptions (fold (invoke d) cbs s) = subscriptions s"
  "eventListeners (fold (invoke d) cbs s) = eventListeners s"
  "messageQueue (fold (invoke d) cbs s) = messageQueue s" "sockets (fold (invoke d) cbs s) = sockets s"
  "nsock (fold (invoke d) cbs s) = nsock s" "timeouts (fold (invoke d) cbs s) = timeouts s"
  "intervals (fold (invoke d) cbs s) = intervals s" "nextTimer (fold (invoke d) cbs s) = nextTimer s"
  "emitted (fold (invoke d) cbs s) = emitted s" "uncaught (fold (invoke d) cbs s) = uncaught s"
  "calls (fold (invoke d) cbs s) = calls s @ map (\<lambda>cb. (cb_id cb, d)) cbs"
  by (induction cbs arbitrary: s; simp)+

lemma emit_fields [simp]:
  "config (emit e d s) = config s" "ws (emit e d s) = ws s"
  "connected (emit e d s) = connected s" "reconnectAttempts (emit e d s) = reconnectAttempts s"
  "reconnectTimer (emit e d s) = reconnectTimer s" "heartbeatTimer (emit e d s) = heartbeatTimer s"
  "subscriptions (emit e d s) = subscriptions s" "eventListeners (emit e d s) = eventListeners s"
  "messageQueue (emit e d s) = messageQueue s" "sockets (emit e d s) = sockets s"
  "nsock (emit e d s) = nsock s" "timeouts (emit e d s) = timeouts s"
  "intervals (emit e d s) = intervals s" "nextTimer (emit e d s) = nextTimer s"
  "uncaught (emit e d s) = uncaught s"
  "emitted (emit e d s) = emitted s @ [(e, if d = JUndefined then JNull else d)]"
  by (simp_all add: emit_def Let_def split: json.splits option.splits)

lemma this_ws_send_fields [simp]:
  "config (snd (this_ws_send f s)) = config s" "ws (snd (this_ws_send f s)) = ws s"
  "connected (snd (this_ws_send f s)) = connected s"
  "reconnectAttempts (snd (this_ws_send f s)) = reconnectAttempts s"
  "reconnectTimer (snd (this_ws_send f s)) = reconnectTimer s"
  "heartbeatTimer (snd (this_ws_send f s)) = heartbeatTimer s"
  "subscriptions (snd (this_ws_send f s)) = subscriptions s"
  "eventListeners (snd (this_ws_send f s)) = eventListeners s"
  "messageQueue (snd (this_ws_send f s)) = messageQueue s"
  "nsock (snd (this_ws_send f s)) = nsock s" "timeouts (snd (this_ws_send f s)) = timeouts s"
  "intervals (snd (this_ws_send f s)) = intervals s" "nextTimer (snd (this_ws_send f s)) = nextTimer s"
  "emitted (snd (this_ws_send f s)) = emitted s" "calls (snd (this_ws_send f s)) = calls s"
  "console (snd (this_ws_send f s)) = console s" "uncaught (snd (this_ws_send f s)) = uncaught s"
  "readyState (sockets (snd (this_ws_send f s)) j) = readyState (sockets s j)"
  "closeCalls (sockets (snd (this_ws_send f s)) j) = closeCalls (sockets s j)"
  by (simp_all add: this_ws_send_def socket_send_def split: option.splits readyState.splits)

lemma this_ws_send_shape:
  "\<exists>sk. snd (this_ws_send f s) = s\<lparr>sockets := sk\<rparr>
        \<and> (\<forall>j. readyState (sk j) = readyState (sockets s j)
               \<and> closeCalls (sk j) = closeCalls (sockets s j))"
  by (cases "ws s"; cases "readyState (sockets s (the (ws s)))")
     (auto simp: this_ws_send_def socket_send_def intro: exI [of _ "sockets s"])

lemma drain_shape:
  "\<exists>q sk. snd (drain s) = s\<lparr>messageQueue := q, sockets := sk\<rparr>
          \<and> (\<forall>j. readyState (sk j) = readyState (sockets s j)
                 \<and> closeCalls (sk j) = closeCalls (sockets s j))"
proof (induction s rule: drain.induct)
  case (1 s)
  show ?case
  proof (cases "messageQueue s")
    case Nil
    then have "snd (drain s) = s\<lparr>messageQueue := [], sockets := sockets s\<rparr>"
      by (subst drain.simps) simp
    then show ?thesis by blast
  next
    case (Cons m rest)
    obtain x y where r: "this_ws_send m (s\<lparr>messageQueue := rest\<rparr>) = (x, y)" by force
    obtain sk where y: "y = s\<lparr>messageQueue := rest, sockets := sk\<rparr>"
      and sk: "\<forall>j. readyState (sk j) = readyState (sockets s j)
                 \<and> closeCalls (sk j) = closeCalls (sockets s j)"
      using this_ws_send_shape [of m "s\<lparr>messageQueue := rest\<rparr>"] r by auto
    show ?thesis
    proof (cases x)
      case None
      from 1 [OF Cons r [symmetric] None] obtain q sk' where
        d: "snd (drain y) = y\<lparr>messageQueue := q, sockets := sk'\<rparr>"
        and sk': "\<forall>j. readyState (sk' j) = readyState (sockets y j)
                 \<and> closeCalls (sk' j) = closeCalls (sockets y j)" by blast
      have "snd (drain s) = snd (drain y)"
        by (subst drain.simps) (simp add: Cons r None)
      then have "snd (drain s) = s\<lparr>messageQueue := q, sockets := sk'\<rparr>"
        using d y by simp
      moreover have "\<forall>j. readyState (sk' j) = readyState (sockets s j)
                 \<and> closeCalls (sk' j) = closeCalls (sockets s j)"
        using sk sk' y by simp
      ultimately show ?thesis by blast
    next
      case (Some e)
      have "snd (drain s) = y"
        by (subst drain.simps) (simp add: Cons r Some)
      then show ?thesis using y sk by blast
    qed
  qed
qed

lemma drain_fields [simp]:
  "config (snd (drain s)) = config s" "ws (snd (drain s)) = ws s"
  "connected (snd (drain s)) = connected s"
  "reconnectAttempts (snd (drain s)) = reconnectAttempts s"
  "reconnectTimer (snd (drain s)) = reconnectTimer s"
  "heartbeatTimer (snd (drain s)) = heartbeatTimer s"
  "subscriptions (snd (drain s)) = subscriptions s"
  "eventListeners (snd (drain s)) = eventListeners s"
  "nsock (snd (drain s)) = nsock s" "timeouts (snd (drain s)) = timeouts s"
  "intervals (snd (drain s)) = intervals s" "nextTimer (snd (drain s)) = nextTimer s"
  "emitted (snd (drain s)) = emitted s" "calls (snd (drain s)) = calls s"
  "console (snd (drain s)) = console s" "uncaught (snd (drain s)) = uncaught s"
  "readyState (sockets (snd (drain s)) j) = readyState (sockets s j)"
  "closeCalls (sockets (snd (drain s)) j) = closeCalls (sockets s j)"
  using drain_shape [of s] by auto
lemmas timer_defs = setTimeout_def clearTimeout_def setInterval_def clearInterval_def
  new_WebSocket_def set_readyState_def

lemma socket_close_fields [simp]:
  "config (socket_close i code reason s) = config s" "ws (socket_close i code reason s) = ws s"
  "connected (socket_close i code reason s) = connected s"
  "reconnectAttempts (socket_close i code reason s) = reconnectAttempts s"
  "reconnectTimer (socket_close i code reason s) = reconnectTimer s"
  "heartbeatTimer (socket_close i code reason s) = heartbeatTimer s"
  "subscriptions (socket_close i code reason s) = subscriptions s"
  "eventListeners (socket_close i code reason s) = eventListeners s"
  "messageQueue (socket_close i code reason s) = messageQueue s"
  "nsock (socket_close i code reason s) = nsock s" "timeouts (socket_close i code reason s) = timeouts s"
  "intervals (socket_close i code reason s) = intervals s"
  "nextTimer (socket_close i code reason s) = nextTimer s"
  "emitted (socket_close i code reason s) = emitted s" "calls (socket_close i code reason s) = calls s"
  "console (socket_close i code reason s) = console s" "uncaught (socket_close i code reason s) = uncaught s"
  by (simp_all add: socket_close_def split: readyState.splits)

lemma disconnect_fields [simp]:
  "config (disconnect s) = config s" "ws (disconnect s) = None"
  "connected (disconnect s) = False"
  "reconnectAttempts (disconnect s) = maxReconnectAttempts (config s)"
  "reconnectTimer (disconnect s) = None" "heartbeatTimer (disconnect s) = None"
  "subscriptions (disconnect s) = subscriptions s"
  "eventListeners (disconnect s) = eventListeners s"
  "messageQueue (disconnect s) = messageQueue s"
  "nsock (disconnect s) = nsock s"
  "timeouts (disconnect s) = timeouts s - set_option (reconnectTimer s)"
  "intervals (disconnect s) = intervals s - set_option (heartbeatTimer s)"
  "nextTimer (disconnect s) = nextTimer s"
  "emitted (disconnect s) = emitted s @ [(JStr ''disconnected'', JNull)]"
  "uncaught (disconnect s) = uncaught s"
  by (simp_all add: disconnect_def Let_def timer_defs split: option.splits)


section \<open>The outcome of the methods that can throw\<close>

lemma send_private_returns: "fst (send_private pf m s) = None"
  by (simp add: send_private_def Let_def ws_is_open_def this_ws_send_def socket_send_def
           split: option.splits)

lemma send_private_fields [simp]:
  "config (snd (send_private pf m s)) = config s" "ws (snd (send_private pf m s)) = ws s"
  "connected (snd (send_private pf m s)) = connected s"
  "reconnectAttempts (snd (send_private pf m s)) = reconnectAttempts s"
  "reconnectTimer (snd (send_private pf m s)) = reconnectTimer s"
  "heartbeatTimer (snd (send_private pf m s)) = heartbeatTimer s"
  "eventListeners (snd (send_private pf m s)) = eventListeners s"
  "nsock (snd (send_private pf m s)) = nsock s" "timeouts (snd (send_private pf m s)) = timeouts s"
  "intervals (snd (send_private pf m s)) = intervals s"
  "nextTimer (snd (send_private pf m s)) = nextTimer s"
  "emitted (snd (send_private pf m s)) = emitted s" "calls (snd (send_private pf m s)) = calls s"
  "uncaught (snd (send_private pf m s)) = uncaught s"
  "readyState (sockets (snd (send_private pf m s)) j) = readyState (sockets s j)"
  "closeCalls (sockets (snd (send_private pf m s)) j) = closeCalls (sockets s j)"
  by (simp_all add: send_private_def Let_def)

lemma subscribe_eq:
  "subscribe pf topic flt interval s =
     (None, log_debug ''Subscribed to:'' (snd (send_private pf (subscribe_message topic flt interval) s)))"
  using send_private_returns [of pf "subscribe_message topic flt interval" s]
  by (cases "send_private pf (subscribe_message topic flt interval) s") (simp add: subscribe_def)

lemma unsubscribe_eq:
  "unsubscribe pf topic flt s =
     (None, log_debug ''Unsubscribed from:'' (snd (send_private pf (unsubscribe_message topic flt) s)))"
  using send_private_returns [of pf "unsubscribe_message topic flt" s]
  by (cases "send_private pf (unsubscribe_message topic flt) s") (simp add: unsubscribe_def)

lemma send_eq: "send pf data s = (None, snd (send_private pf (data_message data) s))"
  using send_private_returns [of pf "data_message data" s]
  by (cases "send_private pf (data_message data) s") (simp add: send_def)

lemma heartbeat_tick_eq:
  "heartbeat_tick pf s =
     (None, if ws_is_open s then snd (send_private pf (JObj [(''type'', JStr ''ping'')]) s) else s)"
  using send_private_returns [of pf "JObj [(''type'', JStr ''ping'')]" s]
  by (cases "send_private pf (JObj [(''type'', JStr ''ping'')]) s") (simp add: heartbeat_tick_def)

lemma report_None [simp]: "report (None, s) = s"
  by (simp add: report_def)

lemma report_Some [simp]: "report (Some e, s) = s\<lparr>uncaught := uncaught s @ [e]\<rparr>"
  by (simp add: report_def)

lemma handleOpen_eq:
  "handleOpen s =
     (case drain (log_debug ''Connected to WebSocket server'' s\<lparr>connected := True, reconnectAttempts := 0\<rparr>) of
        (Some e, s3) \<Rightarrow> (Some e, s3)
      | (None, s3) \<Rightarrow> (None, emit (JStr ''connected'') JUndefined (startHeartbeat s3)))"
  by (simp add: handleOpen_def Let_def)

lemma report_handleOpen:
  "report (handleOpen s) =
     (let d = drain (log_debug ''Connected to WebSocket server'' s\<lparr>connected := True, reconnectAttempts := 0\<rparr>)
      in case fst d of
           Some e \<Rightarrow> (snd d)\<lparr>uncaught := uncaught (snd d) @ [e]\<rparr>
         | None \<Rightarrow> emit (JStr ''connected'') JUndefined (startHeartbeat (snd d)))"
  by (cases "drain (log_debug ''Connected to WebSocket server'' s\<lparr>connected := True, reconnectAttempts := 0\<rparr>)")
     (simp add: handleOpen_eq Let_def split: option.splits)
section \<open>Draining the queue\<close>

lemma drain_empty: "messageQueue s = [] \<Longrightarrow> drain s = (None, s)"
  by (subst drain.simps) simp

lemma drain_no_transport:
  "ws s = None \<Longrightarrow> messageQueue s = m # rest
   \<Longrightarrow> drain s = (Some TypeError, s\<lparr>messageQueue := rest\<rparr>)"
  by (subst drain.simps) (simp add: this_ws_send_def)

lemma drain_open:
  "ws s = Some i \<Longrightarrow> readyState (sockets s i) = OPEN
   \<Longrightarrow> drain s = (None, s\<lparr>messageQueue := [],
                          sockets := (sockets s)(i := (sockets s i)
                                       \<lparr>sent := sent (sockets s i) @ messageQueue s\<rparr>)\<rparr>)"
proof (induction "messageQueue s" arbitrary: s)
  case Nil
  then have "messageQueue s = []" by simp
  then show ?case by (simp add: drain_empty)
next
  case (Cons m rest)
  let ?s1 = "s\<lparr>messageQueue := rest,
               sockets := (sockets s)(i := (sockets s i)\<lparr>sent := sent (sockets s i) @ [m]\<rparr>)\<rparr>"
  have q: "messageQueue s = m # rest" using Cons.hyps(2) by simp
  have w: "this_ws_send m (s\<lparr>messageQueue := rest\<rparr>) = (None, ?s1)"
    using Cons.prems by (simp add: this_ws_send_def socket_send_def)
  have d: "drain s = drain ?s1"
    by (subst drain.simps) (simp add: q w)
  have "drain ?s1 = (None, ?s1\<lparr>messageQueue := [],
                          sockets := (sockets ?s1)(i := (sockets ?s1 i)
                                       \<lparr>sent := sent (sockets ?s1 i) @ messageQueue ?s1\<rparr>)\<rparr>)"
    by (rule Cons.hyps(1)) (use Cons.prems in simp_all)
  then show ?case using d q by simp
qed
lemmas host_defs = setTimeout_def clearTimeout_def setInterval_def clearInterval_def
  new_WebSocket_def socket_close_def set_readyState_def

lemma send_private_subscriptions [simp]:
  "subscriptions (snd (send_private pf m s)) = subscriptions s"
  by (simp add: send_private_def Let_def)

lemma report_subscriptions [simp]: "subscriptions (report r) = subscriptions (snd r)"
  by (cases r; cases "fst r"; simp add: report_def)

lemma subscribe_subscriptions [simp]:
  "subscriptions (snd (subscribe pf topic flt interval s)) = subscriptions s"
  "subscriptions (snd (unsubscribe pf topic flt s)) = subscriptions s"
  "subscriptions (snd (send pf data s)) = subscriptions s"
proof -
  show "subscriptions (snd (subscribe pf topic flt interval s)) = subscriptions s"
  proof (cases "send_private pf (subscribe_message topic flt interval) s")
    case (Pair x y)
    then have "subscriptions y = subscriptions s"
      using send_private_subscriptions [of pf "subscribe_message topic flt interval" s] by simp
    then show ?thesis by (cases x) (simp_all add: subscribe_def Pair)
  qed
  show "subscriptions (snd (unsubscribe pf topic flt s)) = subscriptions s"
  proof (cases "send_private pf (unsubscribe_message topic flt) s")
    case (Pair x y)
    then have "subscriptions y = subscriptions s"
      using send_private_subscriptions [of pf "unsubscribe_message topic flt" s] by simp
    then show ?thesis by (cases x) (simp_all add: unsubscribe_def Pair)
  qed
  show "subscriptions (snd (send pf data s)) = subscriptions s"
    by (simp add: send_def)
qed

lemma scheduleReconnect_subscriptions [simp]:
  "subscriptions (scheduleReconnect s) = subscriptions s"
  by (simp add: scheduleReconnect_def Let_def host_defs)

lemma connect_subscriptions [simp]: "subscriptions (connect pf s) = subscriptions s"
  by (simp add: connect_def Let_def host_defs)

lemma disconnect_subscriptions [simp]: "subscriptions (disconnect s) = subscriptions s"
  by (simp add: disconnect_def Let_def host_defs split: option.splits readyState.splits)

lemma handleOpen_subscriptions [simp]: "subscriptions (snd (handleOpen s)) = subscriptions s"
proof (cases "drain (log_debug ''Connected to WebSocket server'' s
                      \<lparr>connected := True, reconnectAttempts := 0\<rparr>)")
  case (Pair x y)
  then have "subscriptions y = subscriptions s"
    using drain_fields(7) [of "log_debug ''Connected to WebSocket server'' s
                      \<lparr>connected := True, reconnectAttempts := 0\<rparr>"] by simp
  then show ?thesis
    by (cases x) (simp_all add: handleOpen_def Let_def Pair startHeartbeat_def host_defs
                           split: option.splits)
qed

lemma handlers_subscriptions [simp]:
  "subscriptions (handleClose code reason s) = subscriptions s"
  "subscriptions (handleError err s) = subscriptions s"
  "subscriptions (handleMessage pf data s) = subscriptions s"
  "subscriptions (snd (heartbeat_tick pf s)) = subscriptions s"
  "subscriptions (reconnect_tick pf s) = subscriptions s"
  "subscriptions (on event cb s) = subscriptions s"
  "subscriptions (off event cb s) = subscriptions s"
  "subscriptions (cleanup s) = []"
  "subscriptions (set_readyState i r s) = subscriptions s"
  by (simp_all add: handleClose_def handleError_def handleMessage_def heartbeat_tick_def
        reconnect_tick_def on_def off_def cleanup_def Let_def host_defs
        split: option.splits)

lemma step_subscriptions:
  "step pf i s = Some s' \<Longrightarrow> subscriptions s' = subscriptions s \<or> subscriptions s' = []"
  by (cases i) (auto split: if_splits)

lemma run_subscriptions:
  "run pf ins s = Some s' \<Longrightarrow> subscriptions s = [] \<Longrightarrow> subscriptions s' = []"
proof (induction ins arbitrary: s)
  case Nil
  then show ?case by simp
next
  case (Cons i ins)
  then obtain s1 where s1: "step pf i s = Some s1" and r: "run pf ins s1 = Some s'"
    by (auto split: option.splits)
  from step_subscriptions [OF s1] Cons.prems(2) have "subscriptions s1 = []" by auto
  with Cons.IH [OF r] show ?case .
qed
section \<open>The subscription registry\<close>

text \<open>
  C7, as stated, at a concrete input: the claim says that the first
  \<open>subscribe(topic, filter, interval)\<close> for a key creates a record for it in the registry.
  After \<open>subscribe("sensor_data", "site_a", 5000)\<close> on a fresh client the registry holds
  no record at all.
\<close>

theorem subscribe_creates_no_record:
  "subscriptions (snd (subscribe test_platform (JStr ''sensor_data'') (JStr ''site_a'') (JNum 5000)
                         (constructor test_config))) = []"
  by (simp add: constructor_def)

text \<open>
  C7, amended: \<open>subscribe\<close> and \<open>unsubscribe\<close> leave the subscription registry as it is
  (they only route a message through the send path), and in every state a client can
  reach from its construction the registry is empty.
\<close>

theorem subscriptions_stay_empty:
  "subscriptions (snd (subscribe pf topic flt interval s)) = subscriptions s
   \<and> subscriptions (snd (unsubscribe pf topic flt s)) = subscriptions s
   \<and> (\<forall>ins s'. run pf ins (constructor c) = Some s' \<longrightarrow> subscriptions s' = [])"
proof -
  have "subscriptions (constructor c) = []" by (simp add: constructor_def)
  then show ?thesis using run_subscriptions by auto
qed

theorem subscriptions_stay_empty_witness:
  "run test_platform [Subscribe (JStr ''sensor_data'') JNull (JNum 5000),
                      Unsubscribe (JStr ''sensor_data'') JNull] (constructor test_config)
     = Some (report (unsubscribe test_platform (JStr ''sensor_data'') JNull
              (report (subscribe test_platform (JStr ''sensor_data'') JNull (JNum 5000)
                 (constructor test_config)))))
   \<and> subscriptions (report (unsubscribe test_platform (JStr ''sensor_data'') JNull
              (report (subscribe test_platform (JStr ''sensor_data'') JNull (JNum 5000)
                 (constructor test_config))))) = []"
proof -
  let ?s = "report (unsubscribe test_platform (JStr ''sensor_data'') JNull
              (report (subscribe test_platform (JStr ''sensor_data'') JNull (JNum 5000)
                 (constructor test_config))))"
  have r: "run test_platform [Subscribe (JStr ''sensor_data'') JNull (JNum 5000),
                      Unsubscribe (JStr ''sensor_data'') JNull] (constructor test_config) = Some ?s"
    by simp
  from subscriptions_stay_empty [of test_platform "JStr ''sensor_data''" JNull "JNum 5000"
          "constructor test_config" test_config] r
  have "subscriptions ?s = []" by blast
  with r show ?thesis by blast
qed
section \<open>Listeners and exceptions\<close>

text \<open>
  C8: a dispatch invokes every listener registered for the event, in registration order,
  whether or not some of them throw, and nothing escapes \<open>_emit\<close>; no exception leaves
  \<open>connect()\<close> (a failed construction is caught there), \<open>send()\<close> or \<open>subscribe()\<close>
  (the transport is written only when it is open, where writing cannot throw).
\<close>

theorem listeners_all_invoked_nothing_thrown:
  "calls (emit (JStr event) data s)
     = calls s @ map (\<lambda>cb. (cb_id cb, if data = JUndefined then JNull else data))
                     (case eventListeners s event of None \<Rightarrow> [] | Some cbs \<Rightarrow> cbs)
   \<and> uncaught (emit (JStr event) data s) = uncaught s
   \<and> uncaught (connect pf s) = uncaught s
   \<and> fst (send pf data s) = None
   \<and> fst (subscribe pf topic flt interval s) = None"
proof -
  have "calls (emit (JStr event) data s)
     = calls s @ map (\<lambda>cb. (cb_id cb, if data = JUndefined then JNull else data))
                     (case eventListeners s event of None \<Rightarrow> [] | Some cbs \<Rightarrow> cbs)"
    by (simp add: emit_def Let_def split: option.splits)
  moreover have "uncaught (connect pf s) = uncaught s"
    by (simp add: connect_def scheduleReconnect_def Let_def host_defs)
  ultimately show ?thesis by (simp add: send_eq subscribe_eq)
qed
section \<open>Inbound frames\<close>

text \<open>
  C4, as stated, at concrete inputs. The claim says that every frame that parses as an
  object with a \<open>type\<close> field dispatches two events, the first carrying the frame's
  \<open>data\<close> field whenever there is one. The frame \<open>{"type":"t","data":0}\<close> has a \<open>data\<close>
  field, and its \<open>t\<close> event carries the whole payload; the frame \<open>{"type":0,"data":1}\<close>
  has a \<open>type\<close> field, and only the \<open>message\<close> event is dispatched.
\<close>

theorem falsy_type_or_data_frames:
  "emitted (handleMessage
      \<lparr>JSON_parse = (\<lambda>t. Some (JObj [(''type'', JStr ''t''), (''data'', JNum 0)])),
       frac_to_string = (\<lambda>r. []), ctor_throws = (\<lambda>u. False)\<rparr> [] (constructor test_config))
     = [(JStr ''t'', JObj [(''type'', JStr ''t''), (''data'', JNum 0)]),
        (JStr ''message'', JObj [(''type'', JStr ''t''), (''data'', JNum 0)])]
   \<and> emitted (handleMessage
      \<lparr>JSON_parse = (\<lambda>t. Some (JObj [(''type'', JNum 0), (''data'', JNum 1)])),
       frac_to_string = (\<lambda>r. []), ctor_throws = (\<lambda>u. False)\<rparr> [] (constructor test_config))
     = [(JStr ''message'', JObj [(''type'', JNum 0), (''data'', JNum 1)])]"
  by (simp add: handleMessage_def constructor_def)

text \<open>
  C4, amended: a frame that parses to a value whose \<open>type\<close> property is truthy dispatches
  exactly two events, first the one named by \<open>type\<close>, carrying the \<open>data\<close> property when
  that is truthy and the whole parsed payload otherwise, then \<open>message\<close>, carrying the
  whole payload; each goes to the listeners registered under its name. A frame whose
  \<open>type\<close> is absent or falsy dispatches \<open>message\<close> only. A frame that does not parse, or
  parses to \<open>null\<close>, is logged and dropped: nothing is dispatched and nothing is thrown.
\<close>

theorem inbound_frame_dispatch:
  "(JSON_parse pf frame = None \<or> JSON_parse pf frame = Some JNull
      \<longrightarrow> handleMessage pf frame s = log_debug ''Failed to parse message:'' s)
   \<and> (JSON_parse pf frame = Some message \<and> get_prop message ''type'' = Some ty
        \<and> get_prop message ''data'' = Some d
      \<longrightarrow> emitted (handleMessage pf frame s)
            = emitted s @ (if truthy ty then [(ty, if truthy d then d else message)] else [])
                        @ [(JStr ''message'', message)]
          \<and> uncaught (handleMessage pf frame s) = uncaught s)
   \<and> (JSON_parse pf frame = Some message \<and> get_prop message ''type'' = Some (JStr name)
        \<and> name \<noteq> [] \<and> get_prop message ''data'' = Some d
      \<longrightarrow> calls (handleMessage pf frame s)
            = calls s
              @ map (\<lambda>cb. (cb_id cb, if truthy d then d else message))
                    (case eventListeners s name of None \<Rightarrow> [] | Some cbs \<Rightarrow> cbs)
              @ map (\<lambda>cb. (cb_id cb, message))
                    (case eventListeners s ''message'' of None \<Rightarrow> [] | Some cbs \<Rightarrow> cbs))"
proof (intro conjI impI)
  assume "JSON_parse pf frame = None \<or> JSON_parse pf frame = Some JNull"
  then show "handleMessage pf frame s = log_debug ''Failed to parse message:'' s"
    by (auto simp: handleMessage_def)
next
  assume a: "JSON_parse pf frame = Some message \<and> get_prop message ''type'' = Some ty
        \<and> get_prop message ''data'' = Some d"
  then have m: "message \<noteq> JUndefined" by auto
  have d: "truthy d \<Longrightarrow> d \<noteq> JUndefined" by auto
  show "emitted (handleMessage pf frame s)
            = emitted s @ (if truthy ty then [(ty, if truthy d then d else message)] else [])
                        @ [(JStr ''message'', message)]"
    using a m d by (simp add: handleMessage_def Let_def)
  show "uncaught (handleMessage pf frame s) = uncaught s"
    using a by (simp add: handleMessage_def Let_def)
next
  assume a: "JSON_parse pf frame = Some message \<and> get_prop message ''type'' = Some (JStr name)
        \<and> name \<noteq> [] \<and> get_prop message ''data'' = Some d"
  then have m: "message \<noteq> JUndefined" by auto
  have d: "truthy d \<Longrightarrow> d \<noteq> JUndefined" by auto
  have c: "\<And>e x t. calls (emit (JStr e) x t)
     = calls t @ map (\<lambda>cb. (cb_id cb, if x = JUndefined then JNull else x))
                     (case eventListeners t e of None \<Rightarrow> [] | Some cbs \<Rightarrow> cbs)"
    by (simp add: emit_def Let_def split: option.splits)
  show "calls (handleMessage pf frame s)
            = calls s
              @ map (\<lambda>cb. (cb_id cb, if truthy d then d else message))
                    (case eventListeners s name of None \<Rightarrow> [] | Some cbs \<Rightarrow> cbs)
              @ map (\<lambda>cb. (cb_id cb, message))
                    (case eventListeners s ''message'' of None \<Rightarrow> [] | Some cbs \<Rightarrow> cbs)"
    using a m d by (simp add: handleMessage_def Let_def c)
qed

text \<open>
  The scenario of the specification: the frame
  \<open>{"type":"sensor_data_update","data":{"temp":28.5}}\<close> delivers \<open>{"temp":28.5}\<close> to the
  listener of \<open>sensor_data_update\<close> and the whole object to the listener of \<open>message\<close>.
\<close>

theorem inbound_frame_dispatch_witness:
  "JSON_parse test_platform sensor_frame = Some sensor_payload
   \<and> get_prop sensor_payload ''type'' = Some (JStr ''sensor_data_update'')
   \<and> get_prop sensor_payload ''data'' = Some (JObj [(''temp'', JNum (285 / 10))])
   \<and> emitted (handleMessage test_platform sensor_frame
        (on ''message'' (Callback 2 False)
           (on ''sensor_data_update'' (Callback 1 True) (constructor test_config))))
     = [(JStr ''sensor_data_update'', JObj [(''temp'', JNum (285 / 10))]),
        (JStr ''message'', sensor_payload)]
   \<and> calls (handleMessage test_platform sensor_frame
        (on ''message'' (Callback 2 False)
           (on ''sensor_data_update'' (Callback 1 True) (constructor test_config))))
     = [(1, JObj [(''temp'', JNum (285 / 10))]), (2, sensor_payload)]
   \<and> handleMessage test_platform ''{'' (constructor test_config)
     = log_debug ''Failed to parse message:'' (constructor test_config)"
proof -
  let ?s = "on ''message'' (Callback 2 False)
           (on ''sensor_data_update'' (Callback 1 True) (constructor test_config))"
  have p: "JSON_parse test_platform sensor_frame = Some sensor_payload"
    by (simp add: test_platform_def)
  have t: "get_prop sensor_payload ''type'' = Some (JStr ''sensor_data_update'')"
    by (simp add: sensor_payload_def)
  have d: "get_prop sensor_payload ''data'' = Some (JObj [(''temp'', JNum (285 / 10))])"
    by (simp add: sensor_payload_def)
  have n: "JSON_parse test_platform ''{'' = None"
    by (simp add: test_platform_def sensor_frame_def)
  have e: "emitted ?s = []" "calls ?s = []"
    by (simp_all add: on_def constructor_def Let_def)
  have l: "eventListeners ?s ''sensor_data_update'' = Some [Callback 1 True]"
          "eventListeners ?s ''message'' = Some [Callback 2 False]"
    by (simp_all add: on_def constructor_def Let_def set_add_def)
  note disp = inbound_frame_dispatch [of test_platform sensor_frame _ sensor_payload
                "JStr ''sensor_data_update''" "JObj [(''temp'', JNum (285 / 10))]"
                "''sensor_data_update''"]
  have "emitted (handleMessage test_platform sensor_frame ?s)
     = [(JStr ''sensor_data_update'', JObj [(''temp'', JNum (285 / 10))]),
        (JStr ''message'', sensor_payload)]"
    using disp [of ?s] p t d e by simp
  moreover have "calls (handleMessage test_platform sensor_frame ?s)
     = [(1, JObj [(''temp'', JNum (285 / 10))]), (2, sensor_payload)]"
    using disp [of ?s] p t d e l by simp
  moreover have "handleMessage test_platform ''{'' (constructor test_config)
     = log_debug ''Failed to parse message:'' (constructor test_config)"
    using inbound_frame_dispatch [of test_platform "''{''" "constructor test_config"] n by blast
  ultimately show ?thesis using p t d by blast
qed
section \<open>Timers\<close>

lemma scheduleReconnect_timers_ok: "timers_ok s \<Longrightarrow> timers_ok (scheduleReconnect s)"
  by (auto simp: timers_ok_def scheduleReconnect_def Let_def host_defs)

lemma connect_timers_ok: "timers_ok s \<Longrightarrow> timers_ok (connect pf s)"
  using scheduleReconnect_timers_ok
  by (auto simp: connect_def Let_def host_defs timers_ok_def)

lemma disconnect_timers_ok: "timers_ok s \<Longrightarrow> timers_ok (disconnect s)"
  by (auto simp: timers_ok_def disconnect_def Let_def host_defs split: option.splits readyState.splits)

lemma handleClose_timers_ok: "timers_ok s \<Longrightarrow> timers_ok (handleClose code reason s)"
proof -
  assume a: "timers_ok s"
  let ?s3 = "(case heartbeatTimer s of
                  Some t \<Rightarrow> (clearInterval t (log_debug ''WebSocket closed:'' s\<lparr>connected := False, ws := None\<rparr>))\<lparr>heartbeatTimer := None\<rparr>
                | None \<Rightarrow> log_debug ''WebSocket closed:'' s\<lparr>connected := False, ws := None\<rparr>)"
  have "timers_ok ?s3" using a by (auto simp: timers_ok_def host_defs split: option.splits)
  then have "timers_ok (emit (JStr ''disconnected'')
                 (JObj [(''code'', JNum (of_int code)), (''reason'', JStr reason)]) ?s3)"
    by (simp add: timers_ok_def)
  then show ?thesis
    using scheduleReconnect_timers_ok by (simp add: handleClose_def Let_def)
qed

lemma report_handleOpen_timers_ok: "timers_ok s \<Longrightarrow> timers_ok (report (handleOpen s))"
  by (auto simp: report_handleOpen Let_def timers_ok_def startHeartbeat_def host_defs
           split: option.splits)

lemma step_timers_ok: "step pf i s = Some s' \<Longrightarrow> timers_ok s \<Longrightarrow> timers_ok s'"
proof (cases i)
  case Connect
  then show "step pf i s = Some s' \<Longrightarrow> timers_ok s \<Longrightarrow> timers_ok s'"
    using connect_timers_ok by auto
next
  case Disconnect
  then show "step pf i s = Some s' \<Longrightarrow> timers_ok s \<Longrightarrow> timers_ok s'"
    using disconnect_timers_ok by auto
next
  case Cleanup
  then show "step pf i s = Some s' \<Longrightarrow> timers_ok s \<Longrightarrow> timers_ok s'"
    using disconnect_timers_ok [of s] by (auto simp: cleanup_def timers_ok_def)
next
  case (SockOpen j)
  then show "step pf i s = Some s' \<Longrightarrow> timers_ok s \<Longrightarrow> timers_ok s'"
    using report_handleOpen_timers_ok [of "set_readyState j OPEN s"]
    by (auto simp: timers_ok_def set_readyState_def split: if_splits)
next
  case (SockClose j code reason)
  then show "step pf i s = Some s' \<Longrightarrow> timers_ok s \<Longrightarrow> timers_ok s'"
    using handleClose_timers_ok [of "set_readyState j CLOSED s"]
    by (auto simp: timers_ok_def set_readyState_def split: if_splits)
next
  case (TimeoutFire t)
  then show "step pf i s = Some s' \<Longrightarrow> timers_ok s \<Longrightarrow> timers_ok s'"
    using connect_timers_ok [of "s\<lparr>timeouts := timeouts s - {t}, reconnectTimer := None\<rparr>" pf]
    by (auto simp: timers_ok_def reconnect_tick_def split: if_splits option.splits)
qed (auto simp: timers_ok_def subscribe_eq unsubscribe_eq send_eq heartbeat_tick_eq on_def off_def
       Let_def handleError_def handleMessage_def set_readyState_def
       split: if_splits option.splits)

lemma run_timers_ok: "run pf ins s = Some s' \<Longrightarrow> timers_ok s \<Longrightarrow> timers_ok s'"
proof (induction ins arbitrary: s)
  case Nil
  then show ?case by simp
next
  case (Cons i ins)
  then obtain s1 where s1: "step pf i s = Some s1" and r: "run pf ins s1 = Some s'"
    by (auto split: option.splits)
  from Cons.IH [OF r step_timers_ok [OF s1 Cons.prems(2)]] show ?case .
qed

section \<open>Suppressed reconnection\<close>







section \<open>Intentional shutdown\<close>

lemma handleOpen_resets: "reconnectAttempts (snd (handleOpen s)) = 0"
  by (cases "drain (log_debug ''Connected to WebSocket server'' s\<lparr>connected := True, reconnectAttempts := 0\<rparr>)"
      rule: prod.exhaust [case_names Pair],
      insert drain_fields(4) [of "log_debug ''Connected to WebSocket server'' s\<lparr>connected := True, reconnectAttempts := 0\<rparr>"],
      auto simp: handleOpen_eq startHeartbeat_def Let_def timer_defs split: option.splits)


section \<open>Status\<close>




section \<open>Events of a socket that is no longer the current one\<close>

text \<open>
  C3 at a run the client can meet. \<open>disconnect()\<close> followed at once by \<open>connect()\<close>
  leaves the first socket closing while the second connects; the close event of the
  first then clears \<open>ws\<close>, so a later \<open>disconnect()\<close> finds no transport to close and the
  second socket lives on. When it opens the counter is reset, and when it is lost a
  reconnect is scheduled and carried out, with no call of \<open>connect()\<close> after the last
  \<open>disconnect()\<close>: the timer constructs a third socket.
\<close>

theorem reconnect_after_disconnect:
  "map_option (\<lambda>s. (nsock s, ws s, readyState (sockets s 2), events_named ''reconnecting'' s))
     (run test_platform
        [Connect, Disconnect, Connect, SockClose 0 1006 [],
         Disconnect, SockOpen 1, SockClose 1 1006 [], TimeoutFire 2]
        (constructor test_config))
   = Some (3, Some 2, CONNECTING, [reconnecting_payload test_config 1])"
  by code_simp

text \<open>
  C6 at a run the client can meet. As above the close event of the first socket clears
  \<open>ws\<close> while the second is connecting; a message sent meanwhile is queued. When the
  second socket opens, \<open>_handleOpen\<close> sets the connected flag, takes the message off the
  queue and fails on \<open>this.ws.send\<close> with \<open>ws\<close> being \<open>null\<close>, before \<open>_startHeartbeat\<close>
  is reached: the client is connected and has no heartbeat timer.
\<close>

theorem connected_without_heartbeat:
  "map_option (\<lambda>s. (connected s, heartbeatTimer s, intervals s, messageQueue s, uncaught s))
     (run test_platform
        [Connect, Disconnect, Connect, SockClose 0 1006 [], Send JNull, SockOpen 1]
        (constructor test_config))
   = Some (True, None, {}, [], [TypeError])"
  by code_simp
text \<open>
  Apart from that path the heartbeat timer does follow the connected flag: a step that
  ends without an exception keeps "the timer exists if and only if the client is
  connected", so the two agree in every state reached without an uncaught exception.
\<close>

lemma connect_heartbeat [simp]:
  "heartbeatTimer (connect pf s) = heartbeatTimer s" "connected (connect pf s) = connected s"
  "uncaught (connect pf s) = uncaught s"
  by (simp_all add: connect_def scheduleReconnect_def Let_def timer_defs)

lemma handleClose_heartbeat [simp]:
  "heartbeatTimer (handleClose code reason s) = None"
  "connected (handleClose code reason s) = False"
  "uncaught (handleClose code reason s) = uncaught s"
  by (simp_all add: handleClose_def scheduleReconnect_def Let_def timer_defs split: option.splits)

lemma step_uncaught: "step pf i s = Some s' \<Longrightarrow> \<exists>es. uncaught s' = uncaught s @ es"
proof (cases i)
  case (SockOpen j)
  then show "step pf i s = Some s' \<Longrightarrow> \<exists>es. uncaught s' = uncaught s @ es"
    by (auto simp: report_handleOpen Let_def startHeartbeat_def timer_defs
             split: option.splits if_splits)
qed (auto simp: subscribe_eq unsubscribe_eq send_eq heartbeat_tick_eq on_def off_def Let_def
       handleError_def handleMessage_def set_readyState_def cleanup_def reconnect_tick_def
       split: if_splits option.splits)

lemma step_heartbeat_follows_flag:
  assumes "step pf i s = Some s'" and "uncaught s' = uncaught s"
      and "heartbeatTimer s \<noteq> None \<longleftrightarrow> connected s"
  shows "heartbeatTimer s' \<noteq> None \<longleftrightarrow> connected s'"
proof (cases i)
  case (SockOpen j)
  then show ?thesis using assms(1,2)
    by (auto simp: report_handleOpen Let_def startHeartbeat_def timer_defs
             split: option.splits if_splits)
next
  case Connect
  then show ?thesis using assms(1,3) by auto
next
  case Disconnect
  then show ?thesis using assms(1) by auto
next
  case Cleanup
  then show ?thesis using assms(1) by (auto simp: cleanup_def)
next
  case (SockClose j code reason)
  then show ?thesis using assms(1) by (auto split: if_splits)
next
  case (TimeoutFire t)
  then show ?thesis using assms(1,3) by (auto simp: reconnect_tick_def split: if_splits)
next
  case (Subscribe topic flt interval)
  then show ?thesis using assms(1,3) by (auto simp: subscribe_eq)
next
  case (Unsubscribe topic flt)
  then show ?thesis using assms(1,3) by (auto simp: unsubscribe_eq)
next
  case (Send data)
  then show ?thesis using assms(1,3) by (auto simp: send_eq)
next
  case (On event cb)
  then show ?thesis using assms(1,3) by (auto simp: on_def Let_def split: if_splits)
next
  case (Off event cb)
  then show ?thesis using assms(1,3) by (auto simp: off_def split: option.splits if_splits)
next
  case (SockClosing j)
  then show ?thesis using assms(1,3) by (auto simp: set_readyState_def split: if_splits)
next
  case (SockError j err)
  then show ?thesis using assms(1,3) by (auto simp: handleError_def split: if_splits)
next
  case (SockMessage j data)
  then show ?thesis using assms(1,3)
    by (auto simp: handleMessage_def Let_def split: if_splits option.splits)
next
  case (IntervalFire t)
  then show ?thesis using assms(1,3) by (auto simp: heartbeat_tick_eq split: if_splits)
qed

lemma run_heartbeat_follows_flag:
  "run pf ins s = Some s' \<Longrightarrow> uncaught s' = uncaught s
   \<Longrightarrow> heartbeatTimer s \<noteq> None \<longleftrightarrow> connected s
   \<Longrightarrow> heartbeatTimer s' \<noteq> None \<longleftrightarrow> connected s'"
proof (induction ins arbitrary: s)
  case Nil
  then show ?case by simp
next
  case (Cons i ins)
  then obtain s1 where s1: "step pf i s = Some s1" and r: "run pf ins s1 = Some s'"
    by (auto split: option.splits)
  have mono: "\<And>js t t'. run pf js t = Some t' \<Longrightarrow> \<exists>es. uncaught t' = uncaught t @ es"
  proof -
    fix js t t' show "run pf js t = Some t' \<Longrightarrow> \<exists>es. uncaught t' = uncaught t @ es"
    proof (induction js arbitrary: t)
      case Nil
      then show ?case by simp
    next
      case (Cons j js)
      then obtain t1 where t1: "step pf j t = Some t1" and q: "run pf js t1 = Some t'"
        by (auto split: option.splits)
      from step_uncaught [OF t1] Cons.IH [OF q] show ?case by auto
    qed
  qed
  from step_uncaught [OF s1] obtain es where es: "uncaught s1 = uncaught s @ es" by blast
  from mono [OF r] obtain es' where es': "uncaught s' = uncaught s1 @ es'" by blast
  have "uncaught s @ (es @ es') = uncaught s @ []" using es es' Cons.prems(2) by simp
  then have "es @ es' = []" by (simp only: same_append_eq)
  then have u: "uncaught s1 = uncaught s" "uncaught s' = uncaught s1" using es es' by simp_all
  from Cons.IH [OF r u(2) step_heartbeat_follows_flag [OF s1 u(1) Cons.prems(3)]]
  show ?case .
qed
text \<open>
  C2 at runs the client can meet. \<open>disconnect()\<close> followed at once by \<open>connect()\<close>
  leaves the first socket closing while the second connects, and the close event of the
  first clears \<open>ws\<close>. In the first run \<open>send("a")\<close> is then queued; when the second
  socket opens, \<open>_handleOpen\<close> shifts the frame off the queue and fails on
  \<open>this.ws.send\<close> with \<open>ws\<close> being \<open>null\<close>; a later \<open>connect()\<close> and open find the queue
  empty, and the frame is written to no socket. In the second run \<open>connect()\<close> is called
  before \<open>send("a")\<close> and \<open>send("bb")\<close>; the open of the second socket shifts the first
  frame and fails on the third socket, which is still connecting, and when that one opens
  only the second frame is written: of two queued calls the first is lost.
\<close>

theorem queued_frames_lost:
  \<open>map_option (\<lambda>s. (messageQueue s, sent (sockets s 0), sent (sockets s 1), sent (sockets s 2),
                      uncaught s))
     (run test_platform
        [Connect, Disconnect, Connect, SockClose 0 1006 [], Send (JStr ''a''), SockOpen 1,
         Connect, SockOpen 2]
        (constructor test_config))
   = Some ([], [], [], [], [TypeError])
   \<and> map_option (\<lambda>s. (messageQueue s, sent (sockets s 0), sent (sockets s 1), sent (sockets s 2),
                      uncaught s))
     (run test_platform
        [Connect, Disconnect, Connect, SockClose 0 1006 [], Connect, Send (JStr ''a''),
         Send (JStr ''bb''), SockOpen 1, SockOpen 2]
        (constructor test_config))
   = Some ([], [], [], [''{"type":"data","data":"bb"}''], [InvalidStateError])\<close>
  by code_simp
section \<open>The outbound queue\<close>

lemma run_append:
  "run pf (xs @ ys) s = (case run pf xs s of None \<Rightarrow> None | Some s1 \<Rightarrow> run pf ys s1)"
  by (induction xs arbitrary: s) (auto split: option.splits)

lemma send_private_queues:
  "\<not> ws_is_open s \<Longrightarrow>
   send_private pf m s = (None, log_debug ''Message queued (not connected)''
                                  (s\<lparr>messageQueue := messageQueue s @ [serialize pf m]\<rparr>))"
  by (simp add: send_private_def)

lemma call_queues:
  assumes "is_call c" and "\<not> ws_is_open s"
  shows "\<exists>s1. step pf c s = Some s1 \<and> messageQueue s1 = messageQueue s @ [frame_of pf c]
              \<and> ws s1 = ws s \<and> sockets s1 = sockets s \<and> nsock s1 = nsock s
              \<and> config s1 = config s"
  using assms
  by (cases c) (simp_all add: subscribe_eq unsubscribe_eq send_eq send_private_queues)

lemma calls_queue:
  "\<forall>c \<in> set cs. is_call c \<Longrightarrow> \<not> ws_is_open s \<Longrightarrow>
   \<exists>s1. run pf cs s = Some s1 \<and> messageQueue s1 = messageQueue s @ map (frame_of pf) cs
        \<and> ws s1 = ws s \<and> sockets s1 = sockets s \<and> nsock s1 = nsock s \<and> config s1 = config s"
proof (induction cs arbitrary: s)
  case Nil
  then show ?case by simp
next
  case (Cons c cs)
  from Cons.prems have c: "is_call c" and cs: "\<forall>c \<in> set cs. is_call c" by auto
  from call_queues [OF c Cons.prems(2), of pf] obtain s1 where
    s1: "step pf c s = Some s1" "messageQueue s1 = messageQueue s @ [frame_of pf c]"
        "ws s1 = ws s" "sockets s1 = sockets s" "nsock s1 = nsock s" "config s1 = config s"
    by blast
  then have "\<not> ws_is_open s1" using Cons.prems(2)
    by (simp add: ws_is_open_def split: option.splits)
  from Cons.IH [OF cs this] obtain s2 where
    "run pf cs s1 = Some s2" "messageQueue s2 = messageQueue s1 @ map (frame_of pf) cs"
    "ws s2 = ws s1" "sockets s2 = sockets s1" "nsock s2 = nsock s1" "config s2 = config s1"
    by blast
  with s1 show ?case by simp
qed

lemma connect_when_not_open:
  assumes "\<not> ws_is_open s" and "\<forall>j. ws s = Some j \<longrightarrow> j < nsock s"
      and "\<not> ctor_throws pf (url (config s))"
  shows "\<exists>i. ws (connect pf s) = Some i \<and> i < nsock (connect pf s)
            \<and> readyState (sockets (connect pf s) i) = CONNECTING
            \<and> messageQueue (connect pf s) = messageQueue s"
  using assms
  by (auto simp: connect_def ws_is_open_def Let_def timer_defs new_socket_def split: option.splits)

lemma open_drains:
  assumes "ws s = Some i" and "i < nsock s" and "readyState (sockets s i) = CONNECTING"
  shows "\<exists>s2. step pf (SockOpen i) s = Some s2
             \<and> sent (sockets s2 i) = sent (sockets s i) @ messageQueue s
             \<and> messageQueue s2 = []"
proof -
  let ?s0 = "log_debug ''Connected to WebSocket server'' (set_readyState i OPEN s)
               \<lparr>connected := True, reconnectAttempts := 0\<rparr>"
  have "ws ?s0 = Some i" "readyState (sockets ?s0 i) = OPEN"
    using assms by (simp_all add: set_readyState_def)
  from drain_open [OF this] show ?thesis using assms
    by (simp add: report_handleOpen Let_def startHeartbeat_def timer_defs set_readyState_def
             split: option.splits)
qed

text \<open>
  On the path without a superseded socket the queue does what it is meant to: calls of
  \<open>send\<close>, \<open>subscribe\<close> and \<open>unsubscribe\<close> made while the transport is not open are
  serialized and appended to the queue in the order of the calls; when the client then
  connects and its current socket opens, the whole queue is written to that socket in
  the same order, and is empty afterwards.
\<close>

theorem queued_calls_replayed_in_order:
  assumes "\<not> ws_is_open s" and "\<forall>j. ws s = Some j \<longrightarrow> j < nsock s"
      and "\<forall>c \<in> set cs. is_call c" and "\<not> ctor_throws pf (url (config s))"
  shows "\<exists>i s1 s2. run pf (cs @ [Connect]) s = Some s1 \<and> ws s1 = Some i
           \<and> messageQueue s1 = messageQueue s @ map (frame_of pf) cs
           \<and> run pf (cs @ [Connect, SockOpen i]) s = Some s2
           \<and> sent (sockets s2 i) = sent (sockets s1 i) @ messageQueue s @ map (frame_of pf) cs
           \<and> messageQueue s2 = []"
proof -
  from calls_queue [OF assms(3) assms(1), of pf] obtain s0 where
    s0: "run pf cs s = Some s0" "messageQueue s0 = messageQueue s @ map (frame_of pf) cs"
        "ws s0 = ws s" "sockets s0 = sockets s" "nsock s0 = nsock s" "config s0 = config s"
    by blast
  have "\<not> ws_is_open s0" "\<forall>j. ws s0 = Some j \<longrightarrow> j < nsock s0"
       "\<not> ctor_throws pf (url (config s0))"
    using assms s0 by (simp_all add: ws_is_open_def split: option.splits)
  from connect_when_not_open [OF this] obtain i where
    i: "ws (connect pf s0) = Some i" "i < nsock (connect pf s0)"
       "readyState (sockets (connect pf s0) i) = CONNECTING"
       "messageQueue (connect pf s0) = messageQueue s0"
    by blast
  from open_drains [OF i(1,2,3), of pf] obtain s2 where
    s2: "step pf (SockOpen i) (connect pf s0) = Some s2"
        "sent (sockets s2 i) = sent (sockets (connect pf s0) i) @ messageQueue (connect pf s0)"
        "messageQueue s2 = []"
    by blast
  have r1: "run pf (cs @ [Connect]) s = Some (connect pf s0)"
    using s0(1) by (simp add: run_append)
  have r2: "run pf (cs @ [Connect, SockOpen i]) s = Some s2"
    using s0(1) s2(1) by (simp add: run_append)
  show ?thesis using r1 r2 i s0(2) s2 by (intro exI [of _ i] exI [of _ "connect pf s0"] exI [of _ s2]) simp
qed
text \<open>
  \<open>subscribe("sensor_data", "site_a", 5000)\<close> on a client that is not connected, then
  \<open>connect()\<close> and the open event: the first and only frame written is the literal one.
\<close>

theorem queued_calls_replayed_in_order_witness:
  \<open>\<exists>s2. run test_platform
          [Subscribe (JStr ''sensor_data'') (JStr ''site_a'') (JNum 5000), Connect, SockOpen 0]
          (constructor test_config) = Some s2
        \<and> sent (sockets s2 0)
            = [''{"type":"subscribe","topic":"sensor_data","filter":"site_a","interval":5000}'']
        \<and> messageQueue s2 = []\<close>
proof -
  let ?c = "Subscribe (JStr ''sensor_data'') (JStr ''site_a'') (JNum 5000)"
  let ?s = "constructor test_config"
  have h: "\<not> ws_is_open ?s" "\<forall>j. ws ?s = Some j \<longrightarrow> j < nsock ?s"
          "\<forall>c \<in> set [?c]. is_call c" "\<not> ctor_throws test_platform (url (config ?s))"
    by (simp_all add: ws_is_open_def constructor_def test_platform_def)
  have f: \<open>frame_of test_platform ?c
             = ''{"type":"subscribe","topic":"sensor_data","filter":"site_a","interval":5000}''\<close>
    by code_simp
  have e: "map_option (\<lambda>s. (ws s, sent (sockets s 0), messageQueue ?s))
             (run test_platform ([?c] @ [Connect]) ?s) = Some (Some 0, [], [])"
    by code_simp
  from queued_calls_replayed_in_order [OF h] obtain i s1 s2 where
    r: "run test_platform ([?c] @ [Connect]) ?s = Some s1" "ws s1 = Some i"
       "run test_platform ([?c] @ [Connect, SockOpen i]) ?s = Some s2"
       "sent (sockets s2 i) = sent (sockets s1 i) @ messageQueue ?s @ map (frame_of test_platform) [?c]"
       "messageQueue s2 = []"
    by blast
  from e r(1,2) have i: "i = 0" and s: "sent (sockets s1 0) = []" and q: "messageQueue ?s = []"
    by auto
  show ?thesis using r(3,4,5) f i s q by (intro exI [of _ s2]) simp
qed
section \<open>Reconnection\<close>

lemma events_named_emit:
  "events_named n (emit (JStr e) d s)
     = events_named n s @ (if e = n then [if d = JUndefined then JNull else d] else [])"
  by (simp add: events_named_def)

lemma closure_schedules:
  assumes "ws s = Some i" and "i < nsock s" and "readyState (sockets s i) \<noteq> CLOSED"
      and "reconnectTimer s = None" and "timeouts s = {}"
      and "\<not> ctor_throws pf (url (config s))" and "code \<noteq> 1000"
      and "reconnectAttempts s < maxReconnectAttempts (config s)"
  shows "\<exists>s1. closure pf code s = Some s1
           \<and> reconnectAttempts s1 = reconnectAttempts s + 1
           \<and> events_named ''reconnecting'' s1
               = events_named ''reconnecting'' s
                 @ [reconnecting_payload (config s) (reconnectAttempts s + 1)]
           \<and> ws s1 = Some (nsock s) \<and> nsock s1 = Suc (nsock s)
           \<and> readyState (sockets s1 (nsock s)) = CONNECTING
           \<and> reconnectTimer s1 = None \<and> timeouts s1 = {} \<and> config s1 = config s"
proof -
  let ?h = "handleClose code [] (set_readyState i CLOSED s)"
  have st: "step pf (SockClose i code []) s = Some ?h" using assms(2,3) by simp
  have h: "reconnectTimer ?h = Some (nextTimer s)" "timeouts ?h = {nextTimer s}"
          "reconnectAttempts ?h = reconnectAttempts s + 1" "ws ?h = None"
          "nsock ?h = nsock s" "config ?h = config s"
          "events_named ''reconnecting'' ?h = events_named ''reconnecting'' s
             @ [reconnecting_payload (config s) (reconnectAttempts s + 1)]"
    using assms(4,5,7,8)
    by (simp_all add: handleClose_def scheduleReconnect_def Let_def timer_defs
          events_named_emit reconnecting_payload_def split: option.splits)
       (simp_all add: events_named_def)
  let ?t = "reconnect_tick pf (?h\<lparr>timeouts := timeouts ?h - {nextTimer s}\<rparr>)"
  have c: "closure pf code s = Some ?t"
    using assms(1) st h(1,2) by (simp add: closure_def)
  have t: "reconnectAttempts ?t = reconnectAttempts ?h" "ws ?t = Some (nsock ?h)"
          "nsock ?t = Suc (nsock ?h)" "readyState (sockets ?t (nsock ?h)) = CONNECTING"
          "reconnectTimer ?t = None" "timeouts ?t = {}" "config ?t = config ?h"
          "events_named ''reconnecting'' ?t = events_named ''reconnecting'' ?h"
    using assms(6) h(2,4,6)
    by (simp_all add: reconnect_tick_def connect_def Let_def timer_defs new_socket_def
          events_named_def)
  show ?thesis using c t h by simp
qed

lemma closure_gives_up:
  assumes "ws s = Some i" and "i < nsock s" and "readyState (sockets s i) \<noteq> CLOSED"
      and "reconnectTimer s = None" and "timeouts s = {}"
      and "reconnectAttempts s \<ge> maxReconnectAttempts (config s)"
  shows "\<exists>s1. closure pf code s = Some s1
           \<and> reconnectTimer s1 = None \<and> timeouts s1 = {} \<and> ws s1 = None
           \<and> nsock s1 = nsock s \<and> reconnectAttempts s1 = reconnectAttempts s
           \<and> events_named ''reconnecting'' s1 = events_named ''reconnecting'' s"
proof -
  let ?h = "handleClose code [] (set_readyState i CLOSED s)"
  have st: "step pf (SockClose i code []) s = Some ?h" using assms(2,3) by simp
  have h: "reconnectTimer ?h = None" "timeouts ?h = {}"
          "reconnectAttempts ?h = reconnectAttempts s" "ws ?h = None" "nsock ?h = nsock s"
          "events_named ''reconnecting'' ?h = events_named ''reconnecting'' s"
    using assms(4,5,6)
    by (simp_all add: handleClose_def Let_def timer_defs events_named_emit split: option.splits)
       (simp_all add: events_named_def)
  have "closure pf code s = Some ?h" using assms(1) st h(1) by (simp add: closure_def)
  then show ?thesis using h by simp
qed

lemma closures_schedule:
  assumes "\<not> ctor_throws pf (url (config s))" and "code \<noteq> 1000"
  shows "ws s = Some i \<Longrightarrow> i < nsock s \<Longrightarrow> readyState (sockets s i) \<noteq> CLOSED
    \<Longrightarrow> reconnectTimer s = None \<Longrightarrow> timeouts s = {}
    \<Longrightarrow> reconnectAttempts s + int k \<le> maxReconnectAttempts (config s)
    \<Longrightarrow> \<exists>s1 j. closures pf code k s = Some s1
           \<and> reconnectAttempts s1 = reconnectAttempts s + int k
           \<and> events_named ''reconnecting'' s1
               = events_named ''reconnecting'' s
                 @ map (reconnecting_payload (config s))
                       [reconnectAttempts s + 1 .. reconnectAttempts s + int k]
           \<and> ws s1 = Some j \<and> j < nsock s1 \<and> readyState (sockets s1 j) \<noteq> CLOSED
           \<and> nsock s1 = nsock s + k
           \<and> reconnectTimer s1 = None \<and> timeouts s1 = {} \<and> config s1 = config s"
  using assms
proof (induction k arbitrary: s i)
  case 0
  then show ?case by simp
next
  case (Suc k)
  have lt: "reconnectAttempts s < maxReconnectAttempts (config s)" using Suc.prems(6) by simp
  from closure_schedules [OF Suc.prems(1,2,3,4,5,7,8) lt] obtain s1 where
    s1: "closure pf code s = Some s1" "reconnectAttempts s1 = reconnectAttempts s + 1"
        "events_named ''reconnecting'' s1 = events_named ''reconnecting'' s
           @ [reconnecting_payload (config s) (reconnectAttempts s + 1)]"
        "ws s1 = Some (nsock s)" "nsock s1 = Suc (nsock s)"
        "readyState (sockets s1 (nsock s)) = CONNECTING"
        "reconnectTimer s1 = None" "timeouts s1 = {}" "config s1 = config s"
    by blast
  have a: "nsock s < nsock s1" "readyState (sockets s1 (nsock s)) \<noteq> CLOSED"
          "reconnectAttempts s1 + int k \<le> maxReconnectAttempts (config s1)"
          "\<not> ctor_throws pf (url (config s1))"
    using s1 Suc.prems(6,7) by simp_all
  from Suc.IH [OF s1(4) a(1,2) s1(7,8) a(3,4) Suc.prems(8)] obtain s2 j where
    s2: "closures pf code k s1 = Some s2"
        "reconnectAttempts s2 = reconnectAttempts s1 + int k"
        "events_named ''reconnecting'' s2
           = events_named ''reconnecting'' s1
             @ map (reconnecting_payload (config s1))
                   [reconnectAttempts s1 + 1 .. reconnectAttempts s1 + int k]"
        "ws s2 = Some j" "j < nsock s2" "readyState (sockets s2 j) \<noteq> CLOSED"
        "nsock s2 = nsock s1 + k"
        "reconnectTimer s2 = None" "timeouts s2 = {}" "config s2 = config s1"
    by blast
  have u: "[reconnectAttempts s + 1 .. reconnectAttempts s + int (Suc k)]
             = (reconnectAttempts s + 1) # [reconnectAttempts s + 2 .. reconnectAttempts s + 1 + int k]"
    by (subst upto_rec1) (simp_all add: ac_simps)
  show ?case using s1 s2 u by (intro exI [of _ s2] exI [of _ j]) (simp add: ac_simps)
qed
text \<open>
  C1 at a run the client can meet, with \<open>maxReconnectAttempts = 2\<close>: the connection is
  lost with code 1006 again and again, each pending reconnect timer firing before the next
  closure. The first two closures emit \<open>reconnecting\<close> with attempts 1 and 2; the third
  finds the counter at the ceiling, and \<open>_handleClose\<close>, which tests the counter itself
  before it calls \<open>_scheduleReconnect\<close>, skips the call, so the branch of
  \<open>_scheduleReconnect\<close> that emits \<open>reconnect_failed\<close> is never entered: no
  \<open>reconnect_failed\<close> event after two closures, none after three, and no timer pending.
\<close>

theorem closures_emit_no_reconnect_failed:
  "map_option (events_named ''reconnect_failed'')
     (closures test_platform 1006 2 (connect test_platform (constructor test_config))) = Some []
   \<and> map_option (\<lambda>s. (events_named ''reconnect_failed'' s, reconnectTimer s))
     (closures test_platform 1006 3 (connect test_platform (constructor test_config)))
     = Some ([], None)"
  by code_simp

text \<open>
  The other way into \<open>_scheduleReconnect\<close> does reach that branch: when the constructor
  of the socket throws, \<open>connect()\<close> schedules the reconnect from its \<open>catch\<close>, and after
  attempts 1 and 2 the third failure emits \<open>reconnect_failed\<close>, once, with no timer left.
\<close>

lemma failed_constructions_emit_reconnect_failed:
  "map_option (\<lambda>s. (events_named ''reconnecting'' s, events_named ''reconnect_failed'' s,
                      reconnectTimer s, timeouts s))
     (run (test_platform\<lparr>ctor_throws := (\<lambda>u. True)\<rparr>) [Connect, TimeoutFire 1, TimeoutFire 2]
        (constructor test_config))
   = Some ([reconnecting_payload test_config 1, reconnecting_payload test_config 2], [JNull],
           None, {})"
  by code_simp

text \<open>
  What the closures do up to the ceiling: starting from a freshly connected client, with
  no open in between and each reconnect timer firing before the next closure, the \<open>k\<close>-th
  consecutive unintentional closure, for \<open>k\<close> up to \<open>maxReconnectAttempts\<close>, emits
  \<open>reconnecting\<close> with attempt \<open>k\<close> and schedules one reconnect timer, which constructs
  the next socket. Once \<open>maxReconnectAttempts\<close> attempts have been made, a further
  unintentional closure schedules no reconnect timer, emits no \<open>reconnecting\<close> event and
  constructs no socket.
\<close>

theorem reconnect_attempts_up_to_ceiling:
  assumes "\<not> ctor_throws pf (url c)" and "code \<noteq> 1000" and "int k \<le> maxReconnectAttempts c"
  shows "\<exists>s. closures pf code k (connect pf (constructor c)) = Some s
           \<and> reconnectAttempts s = int k
           \<and> events_named ''reconnecting'' s = map (reconnecting_payload c) [1 .. int k]
           \<and> nsock s = Suc k
           \<and> (int k = maxReconnectAttempts c \<longrightarrow>
                (\<exists>s'. closure pf code s = Some s' \<and> reconnectTimer s' = None
                    \<and> timeouts s' = {} \<and> nsock s' = nsock s
                    \<and> events_named ''reconnecting'' s' = events_named ''reconnecting'' s))"
proof -
  let ?s0 = "connect pf (constructor c)"
  have s0: "ws ?s0 = Some 0" "0 < nsock ?s0" "readyState (sockets ?s0 0) \<noteq> CLOSED"
           "reconnectTimer ?s0 = None" "timeouts ?s0 = {}" "reconnectAttempts ?s0 = 0"
           "config ?s0 = c" "nsock ?s0 = 1" "events_named ''reconnecting'' ?s0 = []"
    using assms(1)
    by (simp_all add: connect_def constructor_def Let_def timer_defs new_socket_def
          log_debug_def events_named_def)
  have a: "\<not> ctor_throws pf (url (config ?s0))"
          "reconnectAttempts ?s0 + int k \<le> maxReconnectAttempts (config ?s0)"
    using assms s0 by simp_all
  from closures_schedule [OF a(1) assms(2) s0(1,2,3,4,5) a(2)] obtain s j where
    s: "closures pf code k ?s0 = Some s" "reconnectAttempts s = reconnectAttempts ?s0 + int k"
       "events_named ''reconnecting'' s
          = events_named ''reconnecting'' ?s0
            @ map (reconnecting_payload (config ?s0))
                  [reconnectAttempts ?s0 + 1 .. reconnectAttempts ?s0 + int k]"
       "ws s = Some j" "j < nsock s" "readyState (sockets s j) \<noteq> CLOSED"
       "nsock s = nsock ?s0 + k" "reconnectTimer s = None" "timeouts s = {}"
       "config s = config ?s0"
    by blast
  have "int k = maxReconnectAttempts c \<longrightarrow>
          (\<exists>s'. closure pf code s = Some s' \<and> reconnectTimer s' = None
              \<and> timeouts s' = {} \<and> nsock s' = nsock s
              \<and> events_named ''reconnecting'' s' = events_named ''reconnecting'' s)"
  proof
    assume "int k = maxReconnectAttempts c"
    then have "reconnectAttempts s \<ge> maxReconnectAttempts (config s)"
      using s(2,10) s0(6,7) by simp
    from closure_gives_up [OF s(4,5,6,8,9) this, of pf code]
    show "\<exists>s'. closure pf code s = Some s' \<and> reconnectTimer s' = None
              \<and> timeouts s' = {} \<and> nsock s' = nsock s
              \<and> events_named ''reconnecting'' s' = events_named ''reconnecting'' s"
      by blast
  qed
  then show ?thesis using s(1,2,3,7) s0(6,7,8,9) by (intro exI [of _ s]) simp
qed

text \<open>
  With \<open>maxReconnectAttempts = 2\<close> and \<open>reconnectDelay = 100\<close>:
  two closures give \<open>reconnecting\<close> with attempts 1 and 2, and a third closure schedules
  nothing.
\<close>

theorem reconnect_attempts_up_to_ceiling_witness:
  "\<exists>s s'. closures test_platform 1006 2 (connect test_platform (constructor test_config)) = Some s
     \<and> events_named ''reconnecting'' s
         = [JObj [(''attempt'', JNum 1), (''delay'', JNum 100)],
            JObj [(''attempt'', JNum 2), (''delay'', JNum 100)]]
     \<and> closure test_platform 1006 s = Some s' \<and> reconnectTimer s' = None \<and> timeouts s' = {}
     \<and> nsock s' = 3 \<and> events_named ''reconnecting'' s' = events_named ''reconnecting'' s"
proof -
  have h: "\<not> ctor_throws test_platform (url test_config)" "(1006::int) \<noteq> 1000"
          "int 2 \<le> maxReconnectAttempts test_config"
    by (simp_all add: test_platform_def test_config_def)
  have m: "int 2 = maxReconnectAttempts test_config" by (simp add: test_config_def)
  have u: "map (reconnecting_payload test_config) [1 .. int 2]
             = [JObj [(''attempt'', JNum 1), (''delay'', JNum 100)],
                JObj [(''attempt'', JNum 2), (''delay'', JNum 100)]]"
    by (simp add: upto.simps reconnecting_payload_def test_config_def)
  from reconnect_attempts_up_to_ceiling [OF h] m obtain s s' where
    "closures test_platform 1006 2 (connect test_platform (constructor test_config)) = Some s"
    "events_named ''reconnecting'' s = map (reconnecting_payload test_config) [1 .. int 2]"
    "nsock s = Suc 2"
    "closure test_platform 1006 s = Some s'" "reconnectTimer s' = None" "timeouts s' = {}"
    "nsock s' = nsock s" "events_named ''reconnecting'' s' = events_named ''reconnecting'' s"
    by blast
  then show ?thesis using u by (intro exI [of _ s] exI [of _ s']) simp
qed

text \<open>
  C5: the open handler puts the attempt counter back to 0, whatever it was. When the
  client's current socket opens, a following run of \<open>k\<close> consecutive unintentional
  closures, for any \<open>k\<close> up to \<open>maxReconnectAttempts\<close>, again emits \<open>reconnecting\<close> with
  attempts 1 to \<open>k\<close> and schedules a reconnect each time.
\<close>

theorem open_resets_attempt_counter:
  "reconnectAttempts (snd (handleOpen s)) = 0
   \<and> (ws s = Some i \<and> i < nsock s \<and> readyState (sockets s i) = CONNECTING
        \<and> reconnectTimer s = None \<and> timeouts s = {}
        \<and> \<not> ctor_throws pf (url (config s)) \<and> code \<noteq> 1000
        \<and> int k \<le> maxReconnectAttempts (config s)
      \<longrightarrow> (\<exists>s1 s2. step pf (SockOpen i) s = Some s1 \<and> reconnectAttempts s1 = 0
             \<and> closures pf code k s1 = Some s2 \<and> reconnectAttempts s2 = int k
             \<and> nsock s2 = nsock s + k
             \<and> events_named ''reconnecting'' s2
                 = events_named ''reconnecting'' s1
                   @ map (reconnecting_payload (config s)) [1 .. int k]))"
proof (intro conjI impI)
  show "reconnectAttempts (snd (handleOpen s)) = 0" by (rule handleOpen_resets)
next
  assume a: "ws s = Some i \<and> i < nsock s \<and> readyState (sockets s i) = CONNECTING
        \<and> reconnectTimer s = None \<and> timeouts s = {}
        \<and> \<not> ctor_throws pf (url (config s)) \<and> code \<noteq> 1000
        \<and> int k \<le> maxReconnectAttempts (config s)"
  let ?s0 = "log_debug ''Connected to WebSocket server'' (set_readyState i OPEN s)
               \<lparr>connected := True, reconnectAttempts := 0\<rparr>"
  let ?s1 = "report (handleOpen (set_readyState i OPEN s))"
  have st: "step pf (SockOpen i) s = Some ?s1" using a by simp
  have "ws ?s0 = Some i" "readyState (sockets ?s0 i) = OPEN"
    using a by (simp_all add: set_readyState_def)
  from drain_open [OF this]
  have s1: "ws ?s1 = Some i" "i < nsock ?s1" "readyState (sockets ?s1 i) \<noteq> CLOSED"
           "reconnectTimer ?s1 = None" "timeouts ?s1 = {}" "reconnectAttempts ?s1 = 0"
           "config ?s1 = config s" "nsock ?s1 = nsock s"
    using a
    by (simp_all add: report_handleOpen Let_def startHeartbeat_def timer_defs set_readyState_def
             split: option.splits)
  have b: "\<not> ctor_throws pf (url (config ?s1))" "code \<noteq> 1000"
          "reconnectAttempts ?s1 + int k \<le> maxReconnectAttempts (config ?s1)"
    using a s1(6,7) by simp_all
  from closures_schedule [OF b(1,2) s1(1,2,3,4,5) b(3)] obtain s2 j where
    "closures pf code k ?s1 = Some s2" "reconnectAttempts s2 = reconnectAttempts ?s1 + int k"
    "events_named ''reconnecting'' s2
       = events_named ''reconnecting'' ?s1
         @ map (reconnecting_payload (config ?s1))
               [reconnectAttempts ?s1 + 1 .. reconnectAttempts ?s1 + int k]"
    "nsock s2 = nsock ?s1 + k"
    by blast
  then show "\<exists>s1 s2. step pf (SockOpen i) s = Some s1 \<and> reconnectAttempts s1 = 0
             \<and> closures pf code k s1 = Some s2 \<and> reconnectAttempts s2 = int k
             \<and> nsock s2 = nsock s + k
             \<and> events_named ''reconnecting'' s2
                 = events_named ''reconnecting'' s1
                   @ map (reconnecting_payload (config s)) [1 .. int k]"
    using st s1(6,7,8) by (intro exI [of _ ?s1] exI [of _ s2]) simp
qed
text \<open>
  With \<open>maxReconnectAttempts = 2\<close>: both attempts are used up, the third socket opens, and
  two more closures are again followed by two reconnects.
\<close>

theorem open_resets_attempt_counter_witness:
  "\<exists>s0 s1 s2. closures test_platform 1006 2 (connect test_platform (constructor test_config)) = Some s0
     \<and> reconnectAttempts s0 = 2
     \<and> step test_platform (SockOpen 2) s0 = Some s1 \<and> reconnectAttempts s1 = 0
     \<and> closures test_platform 1006 2 s1 = Some s2 \<and> reconnectAttempts s2 = 2 \<and> nsock s2 = 5"
proof -
  have "map_option (\<lambda>s. (ws s, nsock s, readyState (sockets s 2), reconnectTimer s, timeouts s,
                          reconnectAttempts s, config s))
          (closures test_platform 1006 2 (connect test_platform (constructor test_config)))
        = Some (Some 2, 3, CONNECTING, None, {}, 2, test_config)"
    by code_simp
  then obtain s0 where
    s0: "closures test_platform 1006 2 (connect test_platform (constructor test_config)) = Some s0"
        "ws s0 = Some 2" "nsock s0 = 3" "readyState (sockets s0 2) = CONNECTING"
        "reconnectTimer s0 = None" "timeouts s0 = {}" "reconnectAttempts s0 = 2"
        "config s0 = test_config"
    by auto
  have h: "ws s0 = Some 2 \<and> 2 < nsock s0 \<and> readyState (sockets s0 2) = CONNECTING
        \<and> reconnectTimer s0 = None \<and> timeouts s0 = {}
        \<and> \<not> ctor_throws test_platform (url (config s0)) \<and> (1006::int) \<noteq> 1000
        \<and> int 2 \<le> maxReconnectAttempts (config s0)"
    using s0 by (simp add: test_platform_def test_config_def)
  from open_resets_attempt_counter [of s0 2 test_platform 1006 2] h obtain s1 s2 where
    "step test_platform (SockOpen 2) s0 = Some s1" "reconnectAttempts s1 = 0"
    "closures test_platform 1006 2 s1 = Some s2" "reconnectAttempts s2 = int 2"
    "nsock s2 = nsock s0 + 2"
    by blast
  then show ?thesis using s0(1,3,7) by (intro exI [of _ s0] exI [of _ s1] exI [of _ s2]) simp
qed

end
